theory Spec2Isabelle
  imports Main "HOL-Library.AList" "HOL-Library.Word"
begin

section \<open>gist-backup: the GitHub client and the download pipeline\<close>

text \<open>
  A shallow embedding of package \<open>github\<close> (the client, \<open>GetGistsForUser\<close>,
  \<open>DownloadGist\<close>, \<open>DownloadAllGistsForUser\<close>). The Go code is imperative and talks to
  two outside worlds, the network and the file system. Both are made explicit:
  \<^item> the network, the JSON codec and URL parsing are fields of an environment record
    (\<open>env\<close>): the code is verified for every behaviour of these libraries;
  \<^item> the file system is a state (a map from cleaned paths to nodes) that every function
    takes and returns, together with a trace of the I/O calls made so far;
  \<^item> a Go \<open>error\<close> result is a value of the datatype \<open>error\<close>; a function returns
    \<open>Ok v\<close>, \<open>Failed e\<close> (the Go \<open>return err\<close>) or \<open>Panicked\<close>;
  \<^item> the order in which Go's \<open>range\<close> visits a map is chosen by the runtime at each
    loop; it is a parameter \<open>ord\<close> of the functions that range over a map.
  Logging (logrus) and the cobra command line are not modelled.
\<close>

subsection \<open>Data model\<close>

type_synonym bytes = string

text \<open>\<open>time.Time\<close>: an instant; no function of the package looks inside it.\<close>

type_synonym Time = int

record GistFile =
  Filename :: string
  Type :: string
  Language :: string
  RawURL :: string
  Size :: int
  Content :: string

text \<open>
  \<open>Gist.Files\<close> is a Go map, \<open>map[string]GistFile\<close>: a finite partial function, with no
  order on its entries.
\<close>

record Gist =
  ID :: string
  Description :: string
  Public :: bool
  Files :: "string \<rightharpoonup> GistFile"
  CreatedAt :: Time
  UpdatedAt :: Time
  URL :: string
  HTMLURL :: string

text \<open>
  What the JSON document of a gist says, before it is stored into the Go struct: the
  members of the \<open>files\<close> object in the order of the document.
\<close>

record json_gist =
  json_id :: string
  json_description :: string
  json_public :: bool
  json_files :: "(string \<times> GistFile) list"
  json_created_at :: Time
  json_updated_at :: Time
  json_url :: string
  json_html_url :: string

text \<open>
  \<open>encoding/json\<close> stores the members of a JSON object into a Go map one after the other
  (\<open>m[key] = value\<close>), so a repeated key keeps its last value and the order is lost.
\<close>

definition store_members :: "(string \<times> GistFile) list \<Rightarrow> (string \<rightharpoonup> GistFile)" where
  "store_members kvs = foldl (\<lambda>m (k, v). m(k \<mapsto> v)) Map.empty kvs"

definition Gist_of_json :: "json_gist \<Rightarrow> Gist" where
  "Gist_of_json j =
     \<lparr>ID = json_id j, Description = json_description j, Public = json_public j,
      Files = store_members (json_files j),
      CreatedAt = json_created_at j, UpdatedAt = json_updated_at j,
      URL = json_url j, HTMLURL = json_html_url j\<rparr>"

subsection \<open>Paths and \<open>filepath.Join\<close>\<close>

text \<open>
  A path is kept in the form \<open>filepath.Clean\<close> gives it: whether it is rooted, and its
  segments. \<open>(False, [])\<close> is the working directory \<open>.\<close> and \<open>(True, [])\<close> is \<open>/\<close>. The
  \<open>directory\<close> arguments of the package are taken in this form (a non-empty, cleaned
  path).
\<close>

type_synonym path = "bool \<times> string list"

text \<open>\<open>strings.Split(s, "/")\<close>.\<close>

fun split_slash :: "string \<Rightarrow> string list" where
  "split_slash [] = [[]]"
| "split_slash (c # cs) =
     (if c = CHR ''/'' then [] # split_slash cs
      else (case split_slash cs of [] \<Rightarrow> [[c]] | s # ss \<Rightarrow> (c # s) # ss))"

text \<open>
  One step of \<open>filepath.Clean\<close> (Unix), on the segments kept so far: an empty segment
  and \<open>.\<close> are dropped; \<open>..\<close> removes the segment before it when there is one that is
  not \<open>..\<close> itself, is dropped at the root, and is kept at the start of a relative path.
\<close>

definition clean_step :: "bool \<Rightarrow> string list \<Rightarrow> string \<Rightarrow> string list" where
  "clean_step r out s =
     (if s = [] \<or> s = ''.'' then out
      else if s = ''..'' then
        (if out \<noteq> [] \<and> last out \<noteq> ''..'' then butlast out
         else if r then out
         else out @ [''..''])
      else out @ [s])"

text \<open>
  \<open>filepath.Join(dir, elem)\<close> is \<open>Clean(dir + "/" + elem)\<close> for a non-empty \<open>dir\<close> (and
  \<open>Clean(dir)\<close> when \<open>elem\<close> is empty, which is the same here: the empty segment is
  dropped).
\<close>

definition filepath_Join :: "path \<Rightarrow> string \<Rightarrow> path" where
  "filepath_Join dir elem =
     (fst dir, foldl (clean_step (fst dir)) [] (snd dir @ split_slash elem))"

fun join_slash :: "string list \<Rightarrow> string" where
  "join_slash [] = []"
| "join_slash [s] = s"
| "join_slash (s # ss) = s @ ''/'' @ join_slash ss"

definition path_string :: "path \<Rightarrow> string" where
  "path_string p =
     (if fst p then ''/'' @ join_slash (snd p)
      else if snd p = [] then ''.'' else join_slash (snd p))"

definition parent :: "path \<Rightarrow> path" where
  "parent p = (fst p, butlast (snd p))"

subsection \<open>Errors\<close>

text \<open>
  A Go \<open>error\<close> value. The libraries' errors keep the library they come from and their
  message; \<open>PathError\<close> is \<open>*fs.PathError\<close> (operation, path, cause). \<open>Errorf\<close> is
  \<open>fmt.Errorf\<close> without \<open>%w\<close> (a message and nothing else); \<open>Wrapf prefix e\<close> is
  \<open>fmt.Errorf(prefix + "%w", e)\<close>, whose message is the prefix followed by \<open>e\<close>'s and
  which unwraps to \<open>e\<close>.
\<close>

datatype error =
    UrlError string
  | TransportError string
  | DecodeError string
  | MarshalError string
  | ReadError string
  | PathError string path string
  | Errorf string
  | Wrapf string error

fun Error :: "error \<Rightarrow> string" where
  "Error (UrlError m) = m"
| "Error (TransportError m) = m"
| "Error (DecodeError m) = m"
| "Error (MarshalError m) = m"
| "Error (ReadError m) = m"
| "Error (PathError op p m) = op @ '' '' @ path_string p @ '': '' @ m"
| "Error (Errorf m) = m"
| "Error (Wrapf prefix e) = prefix @ Error e"

fun Unwrap :: "error \<Rightarrow> error option" where
  "Unwrap (Wrapf prefix e) = Some e"
| "Unwrap e = None"

datatype 'a result = Ok 'a | Failed error | Panicked

subsection \<open>HTTP\<close>

record request =
  Method :: string
  ReqURL :: string
  Header :: "(string \<times> string) list"

text \<open>
  A response: the status, the bytes its body delivers, and the error (if any) with
  which reading the body ends after these bytes.
\<close>

record response =
  StatusCode :: int
  Status :: string
  Body :: bytes
  BodyErr :: "error option"

text \<open>\<open>http.Header.Set\<close> on a key in canonical form: the key's value is replaced.\<close>

definition Header_Set :: "string \<Rightarrow> string \<Rightarrow> request \<Rightarrow> request" where
  "Header_Set k v req = req\<lparr>Header := AList.update k v (Header req)\<rparr>"

definition Header_Get :: "request \<Rightarrow> string \<Rightarrow> string option" where
  "Header_Get req k = map_of (Header req) k"

text \<open>
  \<open>time.Duration\<close> is an \<open>int64\<close> of nanoseconds.
\<close>

type_synonym Duration = "64 word"

definition time_Second :: Duration where
  "time_Second = 1000000000"

text \<open>
  A value of the interface \<open>HTTPClient\<close>: the standard \<open>*http.Client\<close> with its
  \<open>Timeout\<close>, or another implementation (a test double), known by a name. A nil
  interface value is \<open>None\<close> of \<open>HTTPClient option\<close>.
\<close>

datatype HTTPClient = http_Client Duration | Other_Client string

record Client =
  token :: string
  httpClient :: "HTTPClient option"

text \<open>
  The libraries and the remote side. \<open>Do h req\<close> is what \<open>h.Do(req)\<close> returns;
  \<open>url_error u\<close> is the error of \<open>http.NewRequestWithContext\<close> on the URL \<open>u\<close> (the
  method is always GET and the context is never nil, so only parsing the URL can fail);
  \<open>decode_gists\<close> and \<open>decode_gist\<close> are \<open>json.NewDecoder(resp.Body).Decode\<close> up to
  the storing into Go values; \<open>MarshalIndent\<close> is \<open>json.MarshalIndent(gist, "", "  ")\<close>.
\<close>

record env =
  Do :: "HTTPClient \<Rightarrow> request \<Rightarrow> error + response"
  url_error :: "string \<Rightarrow> error option"
  decode_gists :: "response \<Rightarrow> error + json_gist list"
  decode_gist :: "response \<Rightarrow> error + json_gist"
  MarshalIndent :: "Gist \<Rightarrow> error + bytes"

subsection \<open>The file system and the trace\<close>

datatype node = Dir | File bytes

type_synonym filesystem = "path \<rightharpoonup> node"

text \<open>The three places of the package that call \<open>httpClient.Do\<close>.\<close>

datatype site = ListCall | DetailCall | RawCall

text \<open>Every call of an I/O primitive, in program order.\<close>

datatype event =
    HttpDo site request
  | MkdirAll path
  | WriteFile path bytes
  | Create path
  | Copy path bytes

record world =
  fs :: filesystem
  trace :: "event list"

type_synonym 'a prog = "world \<Rightarrow> 'a result \<times> world"

text \<open>
  The working directory, the root and the \<open>..\<close> chains above the working directory
  are directories that always exist.
\<close>

definition is_dir :: "filesystem \<Rightarrow> path \<Rightarrow> bool" where
  "is_dir f p = (list_all (\<lambda>s. s = ''..'') (snd p) \<or> f p = Some Dir)"

text \<open>
  \<open>os.MkdirAll\<close>: nothing to do for a directory; \<open>ENOTDIR\<close> for a file; otherwise the
  parent is made first and then the directory itself.
\<close>

definition is_file :: "filesystem \<Rightarrow> path \<Rightarrow> bool" where
  "is_file f p = (case f p of Some (File b) \<Rightarrow> True | _ \<Rightarrow> False)"

function os_MkdirAll :: "filesystem \<Rightarrow> path \<Rightarrow> error option \<times> filesystem" where
  "os_MkdirAll f p =
     (if is_dir f p then (None, f)
      else if is_file f p then (Some (PathError ''mkdir'' p ''not a directory''), f)
      else
        (case os_MkdirAll f (parent p) of
          (Some e, f') \<Rightarrow> (Some e, f')
        | (None, f') \<Rightarrow> (None, f'(p \<mapsto> Dir))))"
  by pat_completeness auto
termination
proof (relation "measure (\<lambda>(f, p). length (snd p))")
  show "wf (measure (\<lambda>(f, p). length (snd p)))" by simp
next
  fix f :: filesystem and p :: path
  assume "\<not> is_dir f p"
  then have "snd p \<noteq> []" by (auto simp: is_dir_def)
  then show "((f, parent p), (f, p)) \<in> measure (\<lambda>(f, p). length (snd p))"
    by (simp add: parent_def)
qed

declare os_MkdirAll.simps [simp del]

text \<open>
  Opening a file for writing with \<open>O_CREATE|O_TRUNC\<close> (\<open>os.WriteFile\<close>, \<open>os.Create\<close>):
  it fails on a directory and where the parent is not a directory.
\<close>

definition open_error :: "filesystem \<Rightarrow> path \<Rightarrow> error option" where
  "open_error f p =
     (if is_dir f p then Some (PathError ''open'' p ''is a directory'')
      else if \<not> is_dir f (parent p) then Some (PathError ''open'' p ''no such file or directory'')
      else None)"

definition os_WriteFile :: "filesystem \<Rightarrow> path \<Rightarrow> bytes \<Rightarrow> error option \<times> filesystem" where
  "os_WriteFile f p data =
     (case open_error f p of Some e \<Rightarrow> (Some e, f) | None \<Rightarrow> (None, f(p \<mapsto> File data)))"

definition os_Create :: "filesystem \<Rightarrow> path \<Rightarrow> error option \<times> filesystem" where
  "os_Create f p =
     (case open_error f p of Some e \<Rightarrow> (Some e, f) | None \<Rightarrow> (None, f(p \<mapsto> File [])))"

text \<open>
  \<open>io.Copy(out, resp.Body)\<close> into the file just created at \<open>p\<close>: the bytes the body
  delivers are written, and the body's read error, if any, is returned.
\<close>

definition io_Copy :: "filesystem \<Rightarrow> path \<Rightarrow> response \<Rightarrow> error option \<times> filesystem" where
  "io_Copy f p resp = (BodyErr resp, f(p \<mapsto> File (Body resp)))"

subsection \<open>Sequencing\<close>

text \<open>
  \<open>on_ok m k\<close> runs \<open>m\<close> and continues with \<open>k\<close> on its value; on an error it is
  the Go \<open>if err != nil { return err }\<close>: the error is returned as it is.
\<close>

definition on_ok :: "'a prog \<Rightarrow> ('a \<Rightarrow> 'b prog) \<Rightarrow> 'b prog" where
  "on_ok m k w =
     (case m w of
        (Ok x, w') \<Rightarrow> k x w'
      | (Failed e, w') \<Rightarrow> (Failed e, w')
      | (Panicked, w') \<Rightarrow> (Panicked, w'))"

definition fail :: "error \<Rightarrow> 'a prog" where
  "fail e w = (Failed e, w)"

text \<open>A library call with no effect on the file system or the network.\<close>

definition lib :: "error + 'a \<Rightarrow> 'a prog" where
  "lib r w = (case r of Inl e \<Rightarrow> (Failed e, w) | Inr x \<Rightarrow> (Ok x, w))"

text \<open>A file-system call: the event is recorded, the file system is updated.\<close>

definition fs_call :: "event \<Rightarrow> (filesystem \<Rightarrow> error option \<times> filesystem) \<Rightarrow> unit prog" where
  "fs_call ev op w =
     (case op (fs w) of
        (None, f') \<Rightarrow> (Ok (), w\<lparr>fs := f', trace := trace w @ [ev]\<rparr>)
      | (Some e, f') \<Rightarrow> (Failed e, w\<lparr>fs := f', trace := trace w @ [ev]\<rparr>))"

text \<open>
  \<open>c.httpClient.Do(req)\<close>: a method call on a nil interface value panics; otherwise the
  request is sent.
\<close>

definition http_Do :: "env \<Rightarrow> Client \<Rightarrow> site \<Rightarrow> request \<Rightarrow> response prog" where
  "http_Do E c s req w =
     (case httpClient c of
        None \<Rightarrow> (Panicked, w)
      | Some h \<Rightarrow>
        (case Do E h req of
           Inl e \<Rightarrow> (Failed e, w\<lparr>trace := trace w @ [HttpDo s req]\<rparr>)
         | Inr resp \<Rightarrow> (Ok resp, w\<lparr>trace := trace w @ [HttpDo s req]\<rparr>)))"

definition http_NewRequest :: "env \<Rightarrow> string \<Rightarrow> string \<Rightarrow> error + request" where
  "http_NewRequest E method url =
     (case url_error E url of
        Some e \<Rightarrow> Inl e
      | None \<Rightarrow> Inr \<lparr>Method = method, ReqURL = url, Header = []\<rparr>)"

subsection \<open>The format strings\<close>

text \<open>
  The four \<open>fmt.Sprintf\<close> and \<open>fmt.Errorf\<close> calls of the package. Only the last
  one uses \<open>%w\<close>: it wraps its cause.
\<close>

definition users_gists_url :: "string \<Rightarrow> string" where
  "users_gists_url username = ''https://api.github.com/users/'' @ username @ ''/gists''"

definition gist_url :: "string \<Rightarrow> string" where
  "gist_url gistID = ''https://api.github.com/gists/'' @ gistID"

definition api_error :: "response \<Rightarrow> error" where
  "api_error resp = Errorf (''GitHub API error: '' @ Status resp)"

definition file_error :: "string \<Rightarrow> response \<Rightarrow> error" where
  "file_error filename fileResp =
     Errorf (''Failed to download file '' @ filename @ '': '' @ Status fileResp)"

definition gist_error :: "string \<Rightarrow> error \<Rightarrow> error" where
  "gist_error gistID err = Wrapf (''Failed to download gist '' @ gistID @ '': '') err"

subsection \<open>The client\<close>

definition NewClient :: "string \<Rightarrow> HTTPClient option \<Rightarrow> Client" where
  "NewClient tok hc =
     (let hc' = (if hc = None then Some (http_Client (30 * time_Second)) else hc)
      in \<lparr>token = tok, httpClient = hc'\<rparr>)"

definition GetGistsForUser :: "env \<Rightarrow> Client \<Rightarrow> string \<Rightarrow> Gist list prog" where
  "GetGistsForUser E c username =
     (let url = users_gists_url username in
      on_ok (lib (http_NewRequest E ''GET'' url)) (\<lambda>req0.
      let req1 = (if token c \<noteq> [] then Header_Set ''Authorization'' (''token '' @ token c) req0
                  else req0);
          req = Header_Set ''Accept'' ''application/vnd.github+json'' req1 in
      on_ok (http_Do E c ListCall req) (\<lambda>resp.
      if StatusCode resp \<noteq> 200 then fail (api_error resp)
      else
      on_ok (lib (decode_gists E resp)) (\<lambda>js.
      (\<lambda>w. (Ok (map Gist_of_json js), w))))))"

subsection \<open>Downloading one gist\<close>

text \<open>
  The order in which a \<open>range\<close> loop visits a map: the runtime's choice, a list of the
  map's entries. Go visits every entry once: \<open>enumerates es m\<close>.
\<close>

type_synonym range_order = "(string \<rightharpoonup> GistFile) \<Rightarrow> (string \<times> GistFile) list"

definition enumerates :: "(string \<times> GistFile) list \<Rightarrow> (string \<rightharpoonup> GistFile) \<Rightarrow> bool" where
  "enumerates es m = (distinct (map fst es) \<and> map_of es = m)"

text \<open>The body of the loop over \<open>gist.Files\<close>, for the entry \<open>(filename, file)\<close>.\<close>

definition download_file :: "env \<Rightarrow> Client \<Rightarrow> path \<Rightarrow> string \<times> GistFile \<Rightarrow> unit prog" where
  "download_file E c gistDir entry =
     (let filename = fst entry; file = snd entry;
          filePath = filepath_Join gistDir filename in
      on_ok (lib (http_NewRequest E ''GET'' (RawURL file))) (\<lambda>fileReq0.
      let fileReq = (if token c \<noteq> []
                     then Header_Set ''Authorization'' (''token '' @ token c) fileReq0
                     else fileReq0) in
      on_ok (http_Do E c RawCall fileReq) (\<lambda>fileResp.
      if StatusCode fileResp \<noteq> 200
      then fail (file_error filename fileResp)
      else
      on_ok (fs_call (Create filePath) (\<lambda>f. os_Create f filePath)) (\<lambda>_.
      fs_call (Copy filePath (Body fileResp)) (\<lambda>f. io_Copy f filePath fileResp)))))"

text \<open>The loop \<open>for filename, file := range gist.Files\<close>, over the entries as visited.\<close>

fun download_files :: "env \<Rightarrow> Client \<Rightarrow> path \<Rightarrow> (string \<times> GistFile) list \<Rightarrow> unit prog" where
  "download_files E c gistDir [] w = (Ok (), w)"
| "download_files E c gistDir (entry # rest) w =
     (case download_file E c gistDir entry w of
        (Ok u, w') \<Rightarrow> download_files E c gistDir rest w'
      | (Failed e, w') \<Rightarrow> (Failed e, w')
      | (Panicked, w') \<Rightarrow> (Panicked, w'))"

text \<open>
  \<open>DownloadGist\<close> up to the loop: the directory, the gist's record, the gist's
  directory and \<open>metadata.json\<close>. It yields the decoded gist.
\<close>

definition DownloadGist_setup :: "env \<Rightarrow> Client \<Rightarrow> string \<Rightarrow> path \<Rightarrow> Gist prog" where
  "DownloadGist_setup E c gistID directory =
     on_ok (fs_call (MkdirAll directory) (\<lambda>f. os_MkdirAll f directory)) (\<lambda>_.
     let url = gist_url gistID in
     on_ok (lib (http_NewRequest E ''GET'' url)) (\<lambda>req0.
     let req1 = (if token c \<noteq> [] then Header_Set ''Authorization'' (''token '' @ token c) req0
                 else req0);
         req = Header_Set ''Accept'' ''application/vnd.github+json'' req1 in
     on_ok (http_Do E c DetailCall req) (\<lambda>resp.
     if StatusCode resp \<noteq> 200 then fail (api_error resp)
     else
     on_ok (lib (decode_gist E resp)) (\<lambda>j.
     let gist = Gist_of_json j;
         gistDir = filepath_Join directory gistID in
     on_ok (fs_call (MkdirAll gistDir) (\<lambda>f. os_MkdirAll f gistDir)) (\<lambda>_.
     on_ok (lib (MarshalIndent E gist)) (\<lambda>metadataBytes.
     let metadataPath = filepath_Join gistDir ''metadata.json'' in
     on_ok (fs_call (WriteFile metadataPath metadataBytes)
              (\<lambda>f. os_WriteFile f metadataPath metadataBytes)) (\<lambda>_.
     (\<lambda>w. (Ok gist, w)))))))))"

definition DownloadGist :: "env \<Rightarrow> range_order \<Rightarrow> Client \<Rightarrow> string \<Rightarrow> path \<Rightarrow> unit prog" where
  "DownloadGist E ord c gistID directory =
     on_ok (DownloadGist_setup E c gistID directory) (\<lambda>gist.
     download_files E c (filepath_Join directory gistID) (ord (Files gist)))"

subsection \<open>Downloading all gists of a user\<close>

text \<open>The loop \<open>for _, gist := range gists\<close> (a slice: in order).\<close>

fun download_gists ::
  "env \<Rightarrow> range_order \<Rightarrow> Client \<Rightarrow> path \<Rightarrow> Gist list \<Rightarrow> unit prog" where
  "download_gists E ord c userDir [] w = (Ok (), w)"
| "download_gists E ord c userDir (gist # rest) w =
     (case DownloadGist E ord c (ID gist) userDir w of
        (Ok u, w') \<Rightarrow> download_gists E ord c userDir rest w'
      | (Failed err, w') \<Rightarrow>
          (Failed (gist_error (ID gist) err), w')
      | (Panicked, w') \<Rightarrow> (Panicked, w'))"

definition DownloadAllGistsForUser ::
  "env \<Rightarrow> range_order \<Rightarrow> Client \<Rightarrow> string \<Rightarrow> path \<Rightarrow> unit prog" where
  "DownloadAllGistsForUser E ord c username directory =
     on_ok (GetGistsForUser E c username) (\<lambda>gists.
     let userDir = filepath_Join directory username in
     on_ok (fs_call (MkdirAll userDir) (\<lambda>f. os_MkdirAll f userDir)) (\<lambda>_.
     download_gists E ord c userDir gists))"

subsection \<open>Notions used in the statements\<close>

text \<open>
  The request the code builds for an API URL (the list and the detail call), and the
  one it builds for a file's raw URL.
\<close>

definition api_request :: "Client \<Rightarrow> string \<Rightarrow> request" where
  "api_request c url =
     \<lparr>Method = ''GET'', ReqURL = url,
      Header = (if token c \<noteq> [] then [(''Authorization'', ''token '' @ token c)] else [])
               @ [(''Accept'', ''application/vnd.github+json'')]\<rparr>"

definition raw_request :: "Client \<Rightarrow> string \<Rightarrow> request" where
  "raw_request c url =
     \<lparr>Method = ''GET'', ReqURL = url,
      Header = (if token c \<noteq> [] then [(''Authorization'', ''token '' @ token c)] else [])\<rparr>"

text \<open>A file name that is one path segment: not empty, no slash, not \<open>.\<close> or \<open>..\<close>.\<close>

definition plain_name :: "string \<Rightarrow> bool" where
  "plain_name n = (n \<noteq> [] \<and> CHR ''/'' \<notin> set n \<and> n \<noteq> ''.'' \<and> n \<noteq> ''..'')"

text \<open>The paths that a list of events writes file content to.\<close>

fun written :: "event list \<Rightarrow> path list" where
  "written [] = []"
| "written (WriteFile p b # evs) = p # written evs"
| "written (Copy p b # evs) = p # written evs"
| "written (ev # evs) = written evs"

text \<open>The requests that a list of events sends, with their call sites.\<close>

fun requests :: "event list \<Rightarrow> (site \<times> request) list" where
  "requests [] = []"
| "requests (HttpDo s req # evs) = (s, req) # requests evs"
| "requests (ev # evs) = requests evs"

text \<open>The events of one turn of the loop over the files, when nothing fails.\<close>

definition file_events :: "Client \<Rightarrow> path \<Rightarrow> string \<times> GistFile \<Rightarrow> bytes \<Rightarrow> event list" where
  "file_events c gistDir entry body =
     [HttpDo RawCall (raw_request c (RawURL (snd entry))),
      Create (filepath_Join gistDir (fst entry)),
      Copy (filepath_Join gistDir (fst entry)) body]"

text \<open>
  The body served for a file's raw URL (empty where the client is nil or the transport
  fails).
\<close>

definition raw_body :: "env \<Rightarrow> Client \<Rightarrow> GistFile \<Rightarrow> bytes" where
  "raw_body E c file =
     (case httpClient c of
        None \<Rightarrow> []
      | Some h \<Rightarrow> (case Do E h (raw_request c (RawURL file)) of Inl e \<Rightarrow> [] | Inr resp \<Rightarrow> Body resp))"

text \<open>
  Nothing is removed and no node changes its kind: a directory stays a directory and a
  file stays a file (its content may change).
\<close>

definition kind_le :: "filesystem \<Rightarrow> filesystem \<Rightarrow> bool" where
  "kind_le f f' =
     ((\<forall>q. f q = Some Dir \<longrightarrow> f' q = Some Dir) \<and>
      (\<forall>q b. f q = Some (File b) \<longrightarrow> (\<exists>b'. f' q = Some (File b'))))"

text \<open>
  A file whose raw URL can be fetched: the request can be built, the client is not
  nil, and the answer has status 200 and a body that reads to its end.
\<close>

definition fetchable :: "env \<Rightarrow> Client \<Rightarrow> GistFile \<Rightarrow> bool" where
  "fetchable E c file =
     (url_error E (RawURL file) = None \<and>
      (\<exists>h resp. httpClient c = Some h \<and> Do E h (raw_request c (RawURL file)) = Inr resp
                \<and> StatusCode resp = 200 \<and> BodyErr resp = None))"

text \<open>
  What the remote side and the codec give for a gist ID, when every step succeeds: the
  decoded gist and the bytes of its \<open>metadata.json\<close>.
\<close>

definition remote_gist :: "env \<Rightarrow> Client \<Rightarrow> string \<Rightarrow> (Gist \<times> bytes) option" where
  "remote_gist E c gistID =
     (case url_error E (gist_url gistID) of Some e \<Rightarrow> None | None \<Rightarrow>
      (case httpClient c of None \<Rightarrow> None | Some h \<Rightarrow>
      (case Do E h (api_request c (gist_url gistID)) of Inl e \<Rightarrow> None | Inr resp \<Rightarrow>
       if StatusCode resp \<noteq> 200 then None
       else (case decode_gist E resp of Inl e \<Rightarrow> None | Inr j \<Rightarrow>
            (case MarshalIndent E (Gist_of_json j) of Inl e \<Rightarrow> None
             | Inr meta \<Rightarrow> Some (Gist_of_json j, meta))))))"

text \<open>The file system after the files of the entries have been written, in order.\<close>

definition write_all ::
  "env \<Rightarrow> Client \<Rightarrow> path \<Rightarrow> (string \<times> GistFile) list \<Rightarrow> filesystem \<Rightarrow> filesystem" where
  "write_all E c gistDir es f =
     foldl (\<lambda>f entry. f(filepath_Join gistDir (fst entry) \<mapsto> File (raw_body E c (snd entry))))
       f es"

text \<open>Segments in the form \<open>filepath.Clean\<close> leaves them, read from the last one.\<close>

fun cleaned_rev :: "bool \<Rightarrow> string list \<Rightarrow> bool" where
  "cleaned_rev r [] = True"
| "cleaned_rev r (s # before) =
     (s \<noteq> [] \<and> s \<noteq> ''.'' \<and>
      (if s = ''..'' then \<not> r \<and> (before = [] \<or> hd before = ''..'') else True) \<and>
      cleaned_rev r before)"

definition cleaned :: "path \<Rightarrow> bool" where
  "cleaned p = cleaned_rev (fst p) (rev (snd p))"

text \<open>A request, sent from a call site, is the request the code builds there.\<close>

definition built_by :: "Client \<Rightarrow> site \<times> request \<Rightarrow> bool" where
  "built_by c sr =
     (snd sr = (case fst sr of
                  RawCall \<Rightarrow> raw_request c (ReqURL (snd sr))
                | ListCall \<Rightarrow> api_request c (ReqURL (snd sr))
                | DetailCall \<Rightarrow> api_request c (ReqURL (snd sr))))"

text \<open>
  The headers of a request sent from a call site: \<open>Authorization\<close> carries the token
  exactly when there is one; \<open>Accept\<close> is set on the two API calls and absent on the
  fetch of a raw URL.
\<close>

definition headers_as_configured :: "Client \<Rightarrow> site \<times> request \<Rightarrow> bool" where
  "headers_as_configured c sr =
     (Header_Get (snd sr) ''Authorization''
        = (if token c = [] then None else Some (''token '' @ token c))
      \<and> Header_Get (snd sr) ''Accept''
        = (if fst sr = RawCall then None else Some ''application/vnd.github+json''))"

text \<open>From \<open>w\<close> to \<open>w'\<close> the trace grows, and only by requests as the code builds them.\<close>

definition sends_built :: "Client \<Rightarrow> world \<Rightarrow> world \<Rightarrow> bool" where
  "sends_built c w w' =
     (\<exists>evs. trace w' = trace w @ evs \<and> list_all (built_by c) (requests evs))"



text \<open>A range order that visits the keys in the order of a given list.\<close>

definition range_by :: "string list \<Rightarrow> range_order" where
  "range_by ks m = concat (map (\<lambda>k. case m k of None \<Rightarrow> [] | Some f \<Rightarrow> [(k, f)]) ks)"

subsection \<open>A concrete remote side\<close>

text \<open>
  A small GitHub for the examples: the users \<open>alice\<close> (gists \<open>g1\<close> with one file and
  \<open>g2\<close> with none, the scenario of the specification) and \<open>carol\<close> (\<open>g1\<close>, then
  \<open>g3\<close> whose record is gone, then \<open>g2\<close>); the list call for \<open>dave\<close> cannot connect.
  Further gists: \<open>g4\<close> has a file whose raw URL answers 404, \<open>g5\<close> has two files,
  \<open>g6\<close> has a file called \<open>metadata.json\<close>, and \<open>g7\<close> has the files \<open>a.txt\<close> and
  \<open>./a.txt\<close>.
\<close>

definition gist_file :: "string \<Rightarrow> string \<Rightarrow> GistFile" where
  "gist_file name url =
     \<lparr>Filename = name, Type = ''text/plain'', Language = ''Text'', RawURL = url,
      Size = 5, Content = ''inline''\<rparr>"

definition json_of :: "string \<Rightarrow> (string \<times> GistFile) list \<Rightarrow> json_gist" where
  "json_of gid files =
     \<lparr>json_id = gid, json_description = [], json_public = True, json_files = files,
      json_created_at = 0, json_updated_at = 0,
      json_url = ''https://api.github.com/gists/'' @ gid,
      json_html_url = ''https://gist.github.com/'' @ gid\<rparr>"

definition demo_files :: "string \<Rightarrow> (string \<times> GistFile) list" where
  "demo_files gid =
     (if gid = ''g1'' then [(''a.txt'', gist_file ''a.txt'' ''https://raw.test/a'')]
      else if gid = ''g4'' then [(''a.txt'', gist_file ''a.txt'' ''https://raw.test/a''),
                                 (''b.txt'', gist_file ''b.txt'' ''https://raw.test/b'')]
      else if gid = ''g5'' then [(''a.txt'', gist_file ''a.txt'' ''https://raw.test/a''),
                                 (''c.txt'', gist_file ''c.txt'' ''https://raw.test/c'')]
      else if gid = ''g6'' then [(''metadata.json'', gist_file ''metadata.json'' ''https://raw.test/m'')]
      else if gid = ''g7'' then [(''a.txt'', gist_file ''a.txt'' ''https://raw.test/a''),
                                 (''./a.txt'', gist_file ''./a.txt'' ''https://raw.test/c'')]
      else [])"

definition ok_response :: "bytes \<Rightarrow> response" where
  "ok_response b = \<lparr>StatusCode = 200, Status = ''200 OK'', Body = b, BodyErr = None\<rparr>"

definition not_found :: response where
  "not_found = \<lparr>StatusCode = 404, Status = ''404 Not Found'', Body = [], BodyErr = None\<rparr>"

definition demo_Do :: "HTTPClient \<Rightarrow> request \<Rightarrow> error + response" where
  "demo_Do h req =
     (let u = ReqURL req in
      if u = ''https://api.github.com/users/alice/gists'' then Inr (ok_response ''alice'')
      else if u = ''https://api.github.com/users/carol/gists'' then Inr (ok_response ''carol'')
      else if u = ''https://api.github.com/users/dave/gists''
        then Inl (TransportError ''dial tcp: connection refused'')
      else if u = ''https://api.github.com/gists/g1'' then Inr (ok_response ''g1'')
      else if u = ''https://api.github.com/gists/g2'' then Inr (ok_response ''g2'')
      else if u = ''https://api.github.com/gists/g4'' then Inr (ok_response ''g4'')
      else if u = ''https://api.github.com/gists/g5'' then Inr (ok_response ''g5'')
      else if u = ''https://api.github.com/gists/g6'' then Inr (ok_response ''g6'')
      else if u = ''https://api.github.com/gists/g7'' then Inr (ok_response ''g7'')
      else if u = ''https://raw.test/a'' then Inr (ok_response ''hello'')
      else if u = ''https://raw.test/c'' then Inr (ok_response ''world'')
      else if u = ''https://raw.test/m'' then Inr (ok_response ''surprise'')
      else Inr not_found)"

definition demo_env :: env where
  "demo_env =
     \<lparr>Do = demo_Do,
      url_error = (\<lambda>u. None),
      decode_gists = (\<lambda>resp.
        if Body resp = ''alice'' then Inr [json_of ''g1'' (demo_files ''g1''), json_of ''g2'' []]
        else if Body resp = ''carol''
          then Inr [json_of ''g1'' (demo_files ''g1''), json_of ''g3'' [], json_of ''g2'' []]
        else Inl (DecodeError ''unexpected end of JSON input'')),
      decode_gist = (\<lambda>resp.
        if Body resp = [] then Inl (DecodeError ''EOF'')
        else Inr (json_of (Body resp) (demo_files (Body resp)))),
      MarshalIndent = (\<lambda>g. Inr (''{id: '' @ ID g @ ''}''))\<rparr>"

definition demo_client :: Client where
  "demo_client = NewClient ''s3cr3t'' None"

definition backup_dir :: path where
  "backup_dir = (False, [''backup''])"

definition empty_world :: world where
  "empty_world = \<lparr>fs = Map.empty, trace = []\<rparr>"

section \<open>Properties\<close>

subsection \<open>Sequencing\<close>

lemma on_ok_Ok: "m w = (Ok x, w1) \<Longrightarrow> on_ok m k w = k x w1"
  by (simp add: on_ok_def)

lemma on_ok_Failed: "m w = (Failed e, w1) \<Longrightarrow> on_ok m k w = (Failed e, w1)"
  by (simp add: on_ok_def)

lemma on_ok_Panicked: "m w = (Panicked, w1) \<Longrightarrow> on_ok m k w = (Panicked, w1)"
  by (simp add: on_ok_def)

lemma on_ok_result:
  "on_ok m k w = (r, w') \<longleftrightarrow>
     (\<exists>x w1. m w = (Ok x, w1) \<and> k x w1 = (r, w')) \<or>
     (\<exists>e. m w = (Failed e, w') \<and> r = Failed e) \<or>
     (m w = (Panicked, w') \<and> r = Panicked)"
  by (auto simp: on_ok_def split: prod.splits result.splits)

lemma fs_call_run:
  "fs_call ev op w =
     ((case fst (op (fs w)) of None \<Rightarrow> Ok () | Some e \<Rightarrow> Failed e),
      w\<lparr>fs := snd (op (fs w)), trace := trace w @ [ev]\<rparr>)"
  by (simp add: fs_call_def split: prod.split option.split)

subsection \<open>The requests\<close>

lemma api_request_built:
  "Header_Set ''Accept'' ''application/vnd.github+json''
     (if token c \<noteq> []
      then Header_Set ''Authorization'' (''token '' @ token c)
             \<lparr>Method = ''GET'', ReqURL = url, Header = []\<rparr>
      else \<lparr>Method = ''GET'', ReqURL = url, Header = []\<rparr>) = api_request c url"
  by (simp add: Header_Set_def api_request_def)

lemma raw_request_built:
  "(if token c \<noteq> []
    then Header_Set ''Authorization'' (''token '' @ token c)
           \<lparr>Method = ''GET'', ReqURL = url, Header = []\<rparr>
    else \<lparr>Method = ''GET'', ReqURL = url, Header = []\<rparr>) = raw_request c url"
  by (simp add: Header_Set_def raw_request_def)

subsection \<open>GetGistsForUser\<close>

lemma GetGistsForUser_run:
  "GetGistsForUser E c username w =
     (case url_error E (users_gists_url username) of
        Some e \<Rightarrow> (Failed e, w)
      | None \<Rightarrow>
        (case httpClient c of
           None \<Rightarrow> (Panicked, w)
         | Some h \<Rightarrow>
             ((case Do E h (api_request c (users_gists_url username)) of
                Inl e \<Rightarrow> Failed e
              | Inr resp \<Rightarrow>
                  if StatusCode resp \<noteq> 200 then Failed (api_error resp)
                  else (case decode_gists E resp of
                          Inl e \<Rightarrow> Failed e
                        | Inr js \<Rightarrow> Ok (map Gist_of_json js))),
              w\<lparr>trace := trace w @ [HttpDo ListCall (api_request c (users_gists_url username))]\<rparr>)))"
  unfolding GetGistsForUser_def Let_def http_NewRequest_def
  by (simp add: on_ok_def lib_def fail_def http_Do_def api_request_built
           split: option.split sum.split)

lemma GetGistsForUser_fs: "GetGistsForUser E c username w = (r, w') \<Longrightarrow> fs w' = fs w"
  by (auto simp: GetGistsForUser_run split: option.splits)

subsection \<open>The file system\<close>

lemma kind_le_refl: "kind_le f f"
  by (simp add: kind_le_def)

lemma kind_le_trans: "kind_le f g \<Longrightarrow> kind_le g h \<Longrightarrow> kind_le f h"
  unfolding kind_le_def by blast

lemma kind_le_Dir: "kind_le f f' \<Longrightarrow> f q = Some Dir \<Longrightarrow> f' q = Some Dir"
  unfolding kind_le_def by blast

lemma kind_le_File: "kind_le f f' \<Longrightarrow> f q = Some (File b) \<Longrightarrow> \<exists>b'. f' q = Some (File b')"
  unfolding kind_le_def by blast

lemma kind_le_is_dir: "kind_le f f' \<Longrightarrow> is_dir f p \<Longrightarrow> is_dir f' p"
  unfolding is_dir_def using kind_le_Dir by blast

lemma is_file_iff: "is_file f p \<longleftrightarrow> (\<exists>b. f p = Some (File b))"
  by (auto simp: is_file_def split: option.splits node.splits)

lemma kind_le_is_file: "kind_le f f' \<Longrightarrow> is_file f p \<Longrightarrow> is_file f' p"
  unfolding is_file_iff using kind_le_File by blast

lemma is_file_not_dir: "is_file f p \<Longrightarrow> \<not> list_all (\<lambda>s. s = ''..'') (snd p) \<Longrightarrow> \<not> is_dir f p"
  by (auto simp: is_file_def is_dir_def split: option.splits node.splits)

lemma kind_le_write: "\<not> is_dir f p \<Longrightarrow> kind_le f (f(p \<mapsto> File b))"
  by (auto simp: kind_le_def is_dir_def)

lemma os_MkdirAll_is_dir: "is_dir f p \<Longrightarrow> os_MkdirAll f p = (None, f)"
  by (simp add: os_MkdirAll.simps)

lemma absent_node: "\<not> is_dir f p \<Longrightarrow> \<not> is_file f p \<Longrightarrow> f p = None"
  by (cases "f p") (auto simp: is_dir_def is_file_def split: node.splits)

lemma os_MkdirAll_frame:
  "os_MkdirAll f p = (r, f') \<Longrightarrow> f' q = f q \<or> (f q = None \<and> f' q = Some Dir)"
proof (induction f p arbitrary: r f' rule: os_MkdirAll.induct)
  case (1 f p)
  show ?case
  proof (cases "is_dir f p \<or> is_file f p")
    case True
    with "1.prems" show ?thesis by (auto simp: os_MkdirAll.simps [of f p] split: if_splits)
  next
    case False
    then have nd: "\<not> is_dir f p" and nf: "\<not> is_file f p" by simp_all
    then have absent: "f p = None" by (rule absent_node)
    obtain r0 f0 where rec: "os_MkdirAll f (parent p) = (r0, f0)"
      by (cases "os_MkdirAll f (parent p)")
    have ih: "f0 q = f q \<or> (f q = None \<and> f0 q = Some Dir)"
      using "1.IH" [OF nd nf rec] .
    from "1.prems" nd nf rec
    have "f' = f0 \<or> f' = f0(p \<mapsto> Dir)"
      by (auto simp: os_MkdirAll.simps [of f p] split: option.splits)
    with ih absent show ?thesis by (auto split: if_splits)
  qed
qed

lemma os_MkdirAll_kind_le: "os_MkdirAll f p = (r, f') \<Longrightarrow> kind_le f f'"
  unfolding kind_le_def using os_MkdirAll_frame [of f p r f'] by (metis option.distinct(1))

lemma os_MkdirAll_made: "os_MkdirAll f p = (None, f') \<Longrightarrow> is_dir f' p"
proof (induction f p arbitrary: f' rule: os_MkdirAll.induct)
  case (1 f p)
  then show ?case
    by (auto simp: os_MkdirAll.simps [of f p] is_dir_def
             split: option.splits prod.splits if_splits)
qed



subsection \<open>Paths\<close>

lemma split_slash_plain: "CHR ''/'' \<notin> set n \<Longrightarrow> split_slash n = [n]"
  by (induction n) auto

lemma clean_step_plain: "plain_name n \<Longrightarrow> clean_step r out n = out @ [n]"
  by (simp add: clean_step_def plain_name_def)

lemma filepath_Join_plain:
  "plain_name n \<Longrightarrow>
     filepath_Join d n = (fst d, foldl (clean_step (fst d)) [] (snd d) @ [n])"
  by (simp add: filepath_Join_def split_slash_plain clean_step_plain plain_name_def)

lemma filepath_Join_plain_inj:
  "plain_name n \<Longrightarrow> plain_name n' \<Longrightarrow> filepath_Join d n = filepath_Join d n' \<Longrightarrow> n = n'"
  by (simp add: filepath_Join_plain)

lemma plain_metadata: "plain_name ''metadata.json''"
  by (simp add: plain_name_def)

subsection \<open>One file\<close>

lemma download_file_run:
  "download_file E c d (k, file) w =
     (case url_error E (RawURL file) of
        Some e \<Rightarrow> (Failed e, w)
      | None \<Rightarrow>
        (case httpClient c of
           None \<Rightarrow> (Panicked, w)
         | Some h \<Rightarrow>
            (case Do E h (raw_request c (RawURL file)) of
               Inl e \<Rightarrow>
                 (Failed e, w\<lparr>trace := trace w @ [HttpDo RawCall (raw_request c (RawURL file))]\<rparr>)
             | Inr resp \<Rightarrow>
                 if StatusCode resp \<noteq> 200
                 then (Failed (file_error k resp),
                       w\<lparr>trace := trace w @ [HttpDo RawCall (raw_request c (RawURL file))]\<rparr>)
                 else
                   (case open_error (fs w) (filepath_Join d k) of
                      Some e \<Rightarrow>
                        (Failed e,
                         w\<lparr>trace := trace w @ [HttpDo RawCall (raw_request c (RawURL file)),
                                                Create (filepath_Join d k)]\<rparr>)
                    | None \<Rightarrow>
                        ((case BodyErr resp of None \<Rightarrow> Ok () | Some e \<Rightarrow> Failed e),
                         w\<lparr>fs := (fs w)(filepath_Join d k \<mapsto> File (Body resp)),
                           trace := trace w @ file_events c d (k, file) (Body resp)\<rparr>)))))"
  unfolding download_file_def Let_def http_NewRequest_def
  by (simp add: on_ok_def lib_def fail_def http_Do_def raw_request_built fs_call_run
                os_Create_def io_Copy_def file_events_def
           split: option.split sum.split)

subsection \<open>The setup of a gist's directory\<close>

lemma DownloadGist_setup_run:
  "DownloadGist_setup E c gistID directory w =
     (let gistDir = filepath_Join directory gistID;
          mp = filepath_Join gistDir ''metadata.json'';
          req = api_request c (gist_url gistID);
          t1 = trace w @ [MkdirAll directory] in
      case os_MkdirAll (fs w) directory of
        (Some e, f1) \<Rightarrow> (Failed e, w\<lparr>fs := f1, trace := t1\<rparr>)
      | (None, f1) \<Rightarrow>
      (case url_error E (gist_url gistID) of
         Some e \<Rightarrow> (Failed e, w\<lparr>fs := f1, trace := t1\<rparr>) | None \<Rightarrow>
      (case httpClient c of None \<Rightarrow> (Panicked, w\<lparr>fs := f1, trace := t1\<rparr>) | Some h \<Rightarrow>
      (case Do E h req of
         Inl e \<Rightarrow> (Failed e, w\<lparr>fs := f1, trace := t1 @ [HttpDo DetailCall req]\<rparr>)
       | Inr resp \<Rightarrow>
      if StatusCode resp \<noteq> 200
      then (Failed (api_error resp), w\<lparr>fs := f1, trace := t1 @ [HttpDo DetailCall req]\<rparr>)
      else
      (case decode_gist E resp of
         Inl e \<Rightarrow> (Failed e, w\<lparr>fs := f1, trace := t1 @ [HttpDo DetailCall req]\<rparr>)
       | Inr j \<Rightarrow>
      (let t2 = t1 @ [HttpDo DetailCall req, MkdirAll gistDir] in
       case os_MkdirAll f1 gistDir of
         (Some e, f2) \<Rightarrow> (Failed e, w\<lparr>fs := f2, trace := t2\<rparr>)
       | (None, f2) \<Rightarrow>
       (case MarshalIndent E (Gist_of_json j) of
          Inl e \<Rightarrow> (Failed e, w\<lparr>fs := f2, trace := t2\<rparr>)
        | Inr meta \<Rightarrow>
       (case open_error f2 mp of
          Some e \<Rightarrow> (Failed e, w\<lparr>fs := f2, trace := t2 @ [WriteFile mp meta]\<rparr>)
        | None \<Rightarrow>
            (Ok (Gist_of_json j),
             w\<lparr>fs := f2(mp \<mapsto> File meta), trace := t2 @ [WriteFile mp meta]\<rparr>)))))))))"
  unfolding DownloadGist_setup_def Let_def http_NewRequest_def
  by (simp add: on_ok_def lib_def fail_def http_Do_def api_request_built fs_call_def
                os_WriteFile_def
           split: option.split sum.split prod.split)

text \<open>
  C10. \<open>NewClient(token, httpClient)\<close> returns a client that holds the given token and
  the given HTTP client; for a nil \<open>httpClient\<close> it holds the standard client with a
  timeout of thirty seconds (30000000000 ns, which an \<open>int64\<close> holds without
  wrapping). The transport of the returned client is never nil.
\<close>

theorem NewClient_token_and_transport:
  "token (NewClient tok hc) = tok
   \<and> httpClient (NewClient tok (Some h)) = Some h
   \<and> httpClient (NewClient tok None) = Some (http_Client (30 * time_Second))
   \<and> sint (30 * time_Second) = 30 * 10 ^ 9
   \<and> httpClient (NewClient tok hc) \<noteq> None"
  by (simp add: NewClient_def time_Second_def)


text \<open>
  C2. If the list call fails (the transport returns an error, the status is not 200,
  or the body does not decode), \<open>DownloadAllGistsForUser\<close> returns an error, the file
  system is what it was (so the user's directory is not created), and the only I/O
  call made is the list request.
\<close>

theorem list_failure_leaves_filesystem:
  assumes "httpClient c = Some h"
    and "url_error E (users_gists_url username) = None"
    and "(\<exists>e. Do E h (api_request c (users_gists_url username)) = Inl e)
         \<or> (\<exists>resp. Do E h (api_request c (users_gists_url username)) = Inr resp
               \<and> (StatusCode resp \<noteq> 200 \<or> (\<exists>e. decode_gists E resp = Inl e)))"
  shows "\<exists>e w'. DownloadAllGistsForUser E ord c username directory w = (Failed e, w')
           \<and> GetGistsForUser E c username w = (Failed e, w')
           \<and> fs w' = fs w
           \<and> trace w' = trace w @ [HttpDo ListCall (api_request c (users_gists_url username))]"
proof -
  let ?w1 = "w\<lparr>trace := trace w @ [HttpDo ListCall (api_request c (users_gists_url username))]\<rparr>"
  have "\<exists>e. GetGistsForUser E c username w = (Failed e, ?w1)"
  proof (cases "Do E h (api_request c (users_gists_url username))")
    case (Inl e)
    with assms(1,2) show ?thesis by (simp add: GetGistsForUser_run)
  next
    case (Inr resp)
    with assms show ?thesis
      by (cases "decode_gists E resp") (auto simp: GetGistsForUser_run)
  qed
  then obtain e where "GetGistsForUser E c username w = (Failed e, ?w1)" ..
  then show ?thesis
    by (simp add: DownloadAllGistsForUser_def on_ok_Failed)
qed

lemma demo_client_simps:
  "token demo_client = ''s3cr3t''"
  "httpClient demo_client = Some (http_Client (30 * time_Second))"
  by (simp_all add: demo_client_def NewClient_def)

theorem list_failure_leaves_filesystem_witness:
  "Do demo_env (http_Client (30 * time_Second)) (api_request demo_client (users_gists_url ''bob''))
     = Inr not_found
   \<and> StatusCode not_found \<noteq> 200
   \<and> (\<exists>e w'. DownloadAllGistsForUser demo_env (range_by []) demo_client ''bob'' backup_dir
                 empty_world = (Failed e, w')
         \<and> GetGistsForUser demo_env demo_client ''bob'' empty_world = (Failed e, w')
         \<and> fs w' = fs empty_world
         \<and> trace w' = trace empty_world
              @ [HttpDo ListCall (api_request demo_client (users_gists_url ''bob''))])"
proof -
  have do: "Do demo_env (http_Client (30 * time_Second))
              (api_request demo_client (users_gists_url ''bob'')) = Inr not_found"
    by (simp add: demo_env_def demo_Do_def api_request_def users_gists_url_def)
  have st: "StatusCode not_found \<noteq> 200" by (simp add: not_found_def)
  have url: "url_error demo_env (users_gists_url ''bob'') = None" by (simp add: demo_env_def)
  from list_failure_leaves_filesystem
         [of demo_client "http_Client (30 * time_Second)" demo_env "''bob''",
          OF demo_client_simps(2) url] do st
  show ?thesis by blast
qed

subsection \<open>Nothing is removed\<close>

lemma download_file_kind_le:
  "download_file E c d entry w = (r, w') \<Longrightarrow> kind_le (fs w) (fs w')"
proof -
  assume run: "download_file E c d entry w = (r, w')"
  obtain k gf where entry: "entry = (k, gf)" by (cases entry)
  have "fs w' = fs w \<or>
        (open_error (fs w) (filepath_Join d k) = None \<and>
         (\<exists>b. fs w' = (fs w)(filepath_Join d k \<mapsto> File b)))"
    using run unfolding entry download_file_run
    by (auto split: option.splits sum.splits if_splits)
  then show ?thesis
  proof
    assume "fs w' = fs w"
    then show ?thesis by (simp add: kind_le_refl)
  next
    assume "open_error (fs w) (filepath_Join d k) = None \<and>
            (\<exists>b. fs w' = (fs w)(filepath_Join d k \<mapsto> File b))"
    then obtain b where nd: "\<not> is_dir (fs w) (filepath_Join d k)"
      and upd: "fs w' = (fs w)(filepath_Join d k \<mapsto> File b)"
      by (auto simp: open_error_def split: if_splits)
    from kind_le_write [OF nd] upd show ?thesis by simp
  qed
qed

lemma download_files_kind_le:
  "download_files E c d es w = (r, w') \<Longrightarrow> kind_le (fs w) (fs w')"
proof (induction es arbitrary: w)
  case Nil
  then show ?case by (simp add: kind_le_refl)
next
  case (Cons entry es)
  obtain r1 w1 where one: "download_file E c d entry w = (r1, w1)"
    by (cases "download_file E c d entry w")
  note k1 = download_file_kind_le [OF one]
  show ?case
  proof (cases r1)
    case (Ok u)
    with Cons.prems one have "download_files E c d es w1 = (r, w')" by simp
    from kind_le_trans [OF k1 Cons.IH [OF this]] show ?thesis .
  next
    case (Failed e)
    with Cons.prems one k1 show ?thesis by simp
  next
    case Panicked
    with Cons.prems one k1 show ?thesis by simp
  qed
qed

lemma DownloadGist_setup_kind_le:
  "DownloadGist_setup E c gistID directory w = (r, w') \<Longrightarrow> kind_le (fs w) (fs w')"
proof -
  assume run: "DownloadGist_setup E c gistID directory w = (r, w')"
  let ?gistDir = "filepath_Join directory gistID"
  let ?mp = "filepath_Join ?gistDir ''metadata.json''"
  obtain r1 f1 where m1: "os_MkdirAll (fs w) directory = (r1, f1)"
    by (cases "os_MkdirAll (fs w) directory")
  obtain r2 f2 where m2: "os_MkdirAll f1 ?gistDir = (r2, f2)"
    by (cases "os_MkdirAll f1 ?gistDir")
  note k1 = os_MkdirAll_kind_le [OF m1]
  note k2 = kind_le_trans [OF k1 os_MkdirAll_kind_le [OF m2]]
  have "fs w' = f1 \<or> fs w' = f2 \<or>
        (open_error f2 ?mp = None \<and> (\<exists>b. fs w' = f2(?mp \<mapsto> File b)))"
    using run m1 m2 unfolding DownloadGist_setup_run Let_def
    by (auto split: option.splits sum.splits if_splits)
  then consider "fs w' = f1" | "fs w' = f2"
    | b where "open_error f2 ?mp = None" "fs w' = f2(?mp \<mapsto> File b)"
    by blast
  then show ?thesis
  proof cases
    case 1
    with k1 show ?thesis by simp
  next
    case 2
    with k2 show ?thesis by simp
  next
    case 3
    then have "\<not> is_dir f2 ?mp" by (auto simp: open_error_def split: if_splits)
    from kind_le_trans [OF k2 kind_le_write [OF this]] 3 show ?thesis by simp
  qed
qed

lemma DownloadGist_kind_le:
  "DownloadGist E ord c gistID directory w = (r, w') \<Longrightarrow> kind_le (fs w) (fs w')"
  unfolding DownloadGist_def on_ok_result
  by (auto intro: DownloadGist_setup_kind_le download_files_kind_le kind_le_trans)

lemma download_gists_kind_le:
  "download_gists E ord c userDir gs w = (r, w') \<Longrightarrow> kind_le (fs w) (fs w')"
proof (induction gs arbitrary: w)
  case Nil
  then show ?case by (simp add: kind_le_refl)
next
  case (Cons g gs)
  obtain r1 w1 where one: "DownloadGist E ord c (ID g) userDir w = (r1, w1)"
    by (cases "DownloadGist E ord c (ID g) userDir w")
  note k1 = DownloadGist_kind_le [OF one]
  show ?case
  proof (cases r1)
    case (Ok u)
    with Cons.prems one have "download_gists E ord c userDir gs w1 = (r, w')" by simp
    from kind_le_trans [OF k1 Cons.IH [OF this]] show ?thesis .
  next
    case (Failed e)
    with Cons.prems one k1 show ?thesis by auto
  next
    case Panicked
    with Cons.prems one k1 show ?thesis by auto
  qed
qed

subsection \<open>What a successful download leaves\<close>

lemma DownloadGist_setup_Ok:
  assumes "DownloadGist_setup E c gistID directory w = (Ok gist, w1)"
  shows "is_dir (fs w1) directory"
    and "is_dir (fs w1) (filepath_Join directory gistID)"
    and "\<exists>meta. MarshalIndent E gist = Inr meta \<and>
           fs w1 (filepath_Join (filepath_Join directory gistID) ''metadata.json'')
             = Some (File meta)"
proof -
  let ?gistDir = "filepath_Join directory gistID"
  let ?mp = "filepath_Join ?gistDir ''metadata.json''"
  obtain r1 f1 where m1: "os_MkdirAll (fs w) directory = (r1, f1)"
    by (cases "os_MkdirAll (fs w) directory")
  obtain r2 f2 where m2: "os_MkdirAll f1 ?gistDir = (r2, f2)"
    by (cases "os_MkdirAll f1 ?gistDir")
  from assms m1 m2 have ok: "r1 = None" "r2 = None"
    and rest: "\<exists>meta. MarshalIndent E gist = Inr meta \<and> open_error f2 ?mp = None \<and>
                 fs w1 = f2(?mp \<mapsto> File meta)"
    unfolding DownloadGist_setup_run Let_def
    by (auto split: option.splits sum.splits if_splits)
  from rest obtain meta where meta: "MarshalIndent E gist = Inr meta"
    and opn: "open_error f2 ?mp = None" and w1: "fs w1 = f2(?mp \<mapsto> File meta)" by blast
  from opn have nd: "\<not> is_dir f2 ?mp" by (auto simp: open_error_def split: if_splits)
  have d1: "is_dir f1 directory" using os_MkdirAll_made m1 ok by simp
  have d2: "is_dir f2 ?gistDir" using os_MkdirAll_made m2 ok by simp
  have k12: "kind_le f1 f2" using os_MkdirAll_kind_le [OF m2] .
  have k2: "kind_le f2 (fs w1)" using kind_le_write [OF nd] w1 by simp
  show "is_dir (fs w1) directory"
    using kind_le_is_dir [OF kind_le_trans [OF k12 k2] d1] .
  show "is_dir (fs w1) ?gistDir" using kind_le_is_dir [OF k2 d2] .
  show "\<exists>meta. MarshalIndent E gist = Inr meta \<and> fs w1 ?mp = Some (File meta)"
    using meta w1 by simp
qed

lemma DownloadGist_Ok_made:
  assumes "DownloadGist E ord c gistID directory w = (Ok u, w')"
  shows "is_dir (fs w') (filepath_Join directory gistID)"
    and "is_file (fs w') (filepath_Join (filepath_Join directory gistID) ''metadata.json'')"
proof -
  from assms obtain gist w1 where
    prep: "DownloadGist_setup E c gistID directory w = (Ok gist, w1)"
    and loop: "download_files E c (filepath_Join directory gistID) (ord (Files gist)) w1
                 = (Ok u, w')"
    unfolding DownloadGist_def on_ok_result by auto
  note k = download_files_kind_le [OF loop]
  from kind_le_is_dir [OF k DownloadGist_setup_Ok(2) [OF prep]]
  show "is_dir (fs w') (filepath_Join directory gistID)" .
  from DownloadGist_setup_Ok(3) [OF prep]
  have "is_file (fs w1) (filepath_Join (filepath_Join directory gistID) ''metadata.json'')"
    by (auto simp: is_file_iff)
  from kind_le_is_file [OF k this]
  show "is_file (fs w') (filepath_Join (filepath_Join directory gistID) ''metadata.json'')" .
qed

lemma download_gists_Ok_made:
  "download_gists E ord c userDir gs w = (Ok u, w') \<Longrightarrow> g \<in> set gs \<Longrightarrow>
     is_dir (fs w') (filepath_Join userDir (ID g)) \<and>
     is_file (fs w') (filepath_Join (filepath_Join userDir (ID g)) ''metadata.json'')"
proof (induction gs arbitrary: w)
  case Nil
  then show ?case by simp
next
  case (Cons g0 gs)
  from Cons.prems(1) obtain u1 w1 where
    one: "DownloadGist E ord c (ID g0) userDir w = (Ok u1, w1)"
    and rest: "download_gists E ord c userDir gs w1 = (Ok u, w')"
    by (auto split: prod.splits result.splits)
  show ?case
  proof (cases "g \<in> set gs")
    case True
    from Cons.IH [OF rest True] show ?thesis .
  next
    case False
    with Cons.prems(2) have "g = g0" by simp
    with DownloadGist_Ok_made [OF one] download_gists_kind_le [OF rest]
    show ?thesis by (auto intro: kind_le_is_dir kind_le_is_file)
  qed
qed

lemma download_gists_append:
  "download_gists E ord c userDir pre w = (Ok u, w1) \<Longrightarrow>
     download_gists E ord c userDir (pre @ post) w = download_gists E ord c userDir post w1"
  by (induction pre arbitrary: w) (auto split: prod.splits result.splits)

lemma download_files_append:
  "download_files E c d pre w = (Ok u, w1) \<Longrightarrow>
     download_files E c d (pre @ post) w = download_files E c d post w1"
  by (induction pre arbitrary: w) (auto split: prod.splits result.splits)

subsection \<open>Evaluating the concrete remote side\<close>

lemma demo_env_simps:
  "url_error demo_env u = None"
  "Do demo_env h req = demo_Do h req"
  "MarshalIndent demo_env g = Inr (''{id: '' @ ID g @ ''}'')"
  "decode_gist demo_env resp =
     (if Body resp = [] then Inl (DecodeError ''EOF'')
      else Inr (json_of (Body resp) (demo_files (Body resp))))"
  "decode_gists demo_env resp =
     (if Body resp = ''alice'' then Inr [json_of ''g1'' (demo_files ''g1''), json_of ''g2'' []]
      else if Body resp = ''carol''
        then Inr [json_of ''g1'' (demo_files ''g1''), json_of ''g3'' [], json_of ''g2'' []]
      else Inl (DecodeError ''unexpected end of JSON input''))"
  by (simp_all add: demo_env_def)

lemmas demo_eval =
  demo_env_simps demo_client_simps backup_dir_def empty_world_def os_MkdirAll.simps
  is_dir_def is_file_def parent_def filepath_Join_def clean_step_def gist_url_def
  users_gists_url_def api_request_def raw_request_def demo_Do_def ok_response_def
  not_found_def open_error_def DownloadGist_setup_run download_file_run GetGistsForUser_run
  DownloadGist_def DownloadAllGistsForUser_def on_ok_def fs_call_def Let_def json_of_def
  demo_files_def gist_file_def Gist_of_json_def store_members_def range_by_def
  file_events_def

subsection \<open>Claims about failures\<close>

text \<open>
  C3. If \<open>DownloadGist\<close> fails for a gist of the list, after the gists before it have
  been downloaded, \<open>DownloadAllGistsForUser\<close> returns at once: its error names the
  gist's ID and wraps the cause, its final state is the state in which that
  \<open>DownloadGist\<close> returned (the gists after it are not attempted: the loop over the
  whole list ends as the loop over the list cut after the failing gist), and the
  directory and the \<open>metadata.json\<close> of every earlier gist are still on disk; nothing
  that was on disk is removed.
\<close>

theorem failing_gist_aborts_the_backup:
  assumes "GetGistsForUser E c username w = (Ok (pre @ gist # post), w1)"
    and "os_MkdirAll (fs w1) (filepath_Join directory username) = (None, f2)"
    and "download_gists E ord c (filepath_Join directory username) pre
           (w1\<lparr>fs := f2, trace := trace w1 @ [MkdirAll (filepath_Join directory username)]\<rparr>)
         = (Ok (), w3)"
    and "DownloadGist E ord c (ID gist) (filepath_Join directory username) w3 = (Failed e, w4)"
  shows "DownloadAllGistsForUser E ord c username directory w
           = (Failed (gist_error (ID gist) e), w4)
     \<and> Error (gist_error (ID gist) e)
           = ''Failed to download gist '' @ ID gist @ '': '' @ Error e
     \<and> Unwrap (gist_error (ID gist) e) = Some e
     \<and> download_gists E ord c (filepath_Join directory username) (pre @ gist # post)
           (w1\<lparr>fs := f2, trace := trace w1 @ [MkdirAll (filepath_Join directory username)]\<rparr>)
         = download_gists E ord c (filepath_Join directory username) (pre @ [gist])
           (w1\<lparr>fs := f2, trace := trace w1 @ [MkdirAll (filepath_Join directory username)]\<rparr>)
     \<and> list_all (\<lambda>g. is_dir (fs w4) (filepath_Join (filepath_Join directory username) (ID g))
                   \<and> is_file (fs w4) (filepath_Join
                         (filepath_Join (filepath_Join directory username) (ID g))
                         ''metadata.json'')) pre
     \<and> kind_le (fs w3) (fs w4)"
proof -
  let ?userDir = "filepath_Join directory username"
  let ?w2 = "w1\<lparr>fs := f2, trace := trace w1 @ [MkdirAll ?userDir]\<rparr>"
  have mk: "fs_call (MkdirAll ?userDir) (\<lambda>f. os_MkdirAll f ?userDir) w1 = (Ok (), ?w2)"
    using assms(2) by (simp add: fs_call_def)
  have loop: "download_gists E ord c ?userDir (pre @ gist # post) ?w2
                = (Failed (gist_error (ID gist) e), w4)"
    using assms(4) by (simp add: download_gists_append [OF assms(3)])
  have cut: "download_gists E ord c ?userDir (pre @ [gist]) ?w2
                = (Failed (gist_error (ID gist) e), w4)"
    using assms(4) by (simp add: download_gists_append [OF assms(3)])
  have all: "DownloadAllGistsForUser E ord c username directory w
               = (Failed (gist_error (ID gist) e), w4)"
    unfolding DownloadAllGistsForUser_def Let_def
    by (simp add: on_ok_def assms(1) mk loop)
  have k: "kind_le (fs w3) (fs w4)" using DownloadGist_kind_le [OF assms(4)] .
  have kept: "list_all (\<lambda>g. is_dir (fs w4) (filepath_Join ?userDir (ID g))
                   \<and> is_file (fs w4) (filepath_Join (filepath_Join ?userDir (ID g))
                         ''metadata.json'')) pre"
    unfolding list_all_iff
  proof
    fix g assume "g \<in> set pre"
    from download_gists_Ok_made [OF assms(3) this] k
    show "is_dir (fs w4) (filepath_Join ?userDir (ID g))
            \<and> is_file (fs w4) (filepath_Join (filepath_Join ?userDir (ID g)) ''metadata.json'')"
      by (auto intro: kind_le_is_dir kind_le_is_file)
  qed
  have msg: "Error (gist_error (ID gist) e)
               = ''Failed to download gist '' @ ID gist @ '': '' @ Error e"
    by (simp add: gist_error_def)
  have unw: "Unwrap (gist_error (ID gist) e) = Some e" by (simp add: gist_error_def)
  from all msg unw loop cut kept k show ?thesis by simp
qed

theorem failing_gist_aborts_the_backup_witness:
  "fst (DownloadAllGistsForUser demo_env (range_by [''a.txt'']) demo_client ''carol''
          backup_dir empty_world)
     = Failed (gist_error ''g3'' (api_error not_found))
   \<and> Error (gist_error ''g3'' (api_error not_found))
     = ''Failed to download gist g3: GitHub API error: 404 Not Found''
   \<and> is_dir (fs (snd (DownloadAllGistsForUser demo_env (range_by [''a.txt'']) demo_client
          ''carol'' backup_dir empty_world))) (False, [''backup'', ''carol'', ''g1''])
   \<and> fs (snd (DownloadAllGistsForUser demo_env (range_by [''a.txt'']) demo_client
          ''carol'' backup_dir empty_world)) (False, [''backup'', ''carol'', ''g2'']) = None"
proof -
  let ?ord = "range_by [''a.txt'']"
  let ?g1 = "Gist_of_json (json_of ''g1'' (demo_files ''g1''))"
  let ?g3 = "Gist_of_json (json_of ''g3'' [])"
  let ?g2 = "Gist_of_json (json_of ''g2'' [])"
  let ?w1 = "snd (GetGistsForUser demo_env demo_client ''carol'' empty_world)"
  let ?userDir = "filepath_Join backup_dir ''carol''"
  let ?f2 = "snd (os_MkdirAll (fs ?w1) ?userDir)"
  let ?w2 = "?w1\<lparr>fs := ?f2, trace := trace ?w1 @ [MkdirAll ?userDir]\<rparr>"
  let ?w3 = "snd (download_gists demo_env ?ord demo_client ?userDir [?g1] ?w2)"
  let ?w4 = "snd (DownloadGist demo_env ?ord demo_client (ID ?g3) ?userDir ?w3)"
  have h1: "GetGistsForUser demo_env demo_client ''carol'' empty_world
              = (Ok ([?g1] @ ?g3 # [?g2]), ?w1)"
    by (simp add: demo_eval)
  have h2: "os_MkdirAll (fs ?w1) ?userDir = (None, ?f2)"
    by (simp add: demo_eval)
  have h3: "download_gists demo_env ?ord demo_client ?userDir [?g1] ?w2 = (Ok (), ?w3)"
    by (simp add: demo_eval)
  have h4: "DownloadGist demo_env ?ord demo_client (ID ?g3) ?userDir ?w3
              = (Failed (api_error not_found), ?w4)"
    by (simp add: demo_eval)
  note concl = failing_gist_aborts_the_backup
    [where pre = "[?g1]" and post = "[?g2]" and ord = ?ord, OF h1 h2 h3 h4]
  have id3: "ID ?g3 = ''g3''" by (simp add: Gist_of_json_def json_of_def)
  have id1: "ID ?g1 = ''g1''" by (simp add: Gist_of_json_def json_of_def)
  have dir: "filepath_Join ?userDir ''g1'' = (False, [''backup'', ''carol'', ''g1''])"
    by (simp add: filepath_Join_def backup_dir_def clean_step_def)
  have absent: "fs ?w4 (False, [''backup'', ''carol'', ''g2'']) = None"
    by (simp add: demo_eval)
  have msg: "Error (gist_error ''g3'' (api_error not_found))
               = ''Failed to download gist g3: GitHub API error: 404 Not Found''"
    by (simp add: gist_error_def api_error_def not_found_def)
  from concl id1 id3 dir absent msg show ?thesis by simp
qed

text \<open>
  C4. If the loop over the files reaches an entry whose raw URL answers with a status
  other than 200, \<open>DownloadGist\<close> returns an error whose message names that entry's
  file name and the status; the file system is left as it was before that request
  (\<open>metadata.json\<close> and the files written before it are there, nothing is written
  after it), and the request is the last I/O call.
\<close>

theorem raw_fetch_failure_stops_the_gist:
  assumes "DownloadGist_setup E c gistID directory w = (Ok gist, w1)"
    and "ord (Files gist) = pre @ (k, gf) # post"
    and "download_files E c (filepath_Join directory gistID) pre w1 = (Ok (), w2)"
    and "httpClient c = Some h"
    and "url_error E (RawURL gf) = None"
    and "Do E h (raw_request c (RawURL gf)) = Inr resp"
    and "StatusCode resp \<noteq> 200"
  shows "DownloadGist E ord c gistID directory w
           = (Failed (file_error k resp),
              w2\<lparr>trace := trace w2 @ [HttpDo RawCall (raw_request c (RawURL gf))]\<rparr>)
     \<and> Error (file_error k resp) = ''Failed to download file '' @ k @ '': '' @ Status resp
     \<and> fs (snd (DownloadGist E ord c gistID directory w)) = fs w2
     \<and> kind_le (fs w1) (fs w2)"
proof -
  let ?d = "filepath_Join directory gistID"
  let ?w3 = "w2\<lparr>trace := trace w2 @ [HttpDo RawCall (raw_request c (RawURL gf))]\<rparr>"
  have one: "download_file E c ?d (k, gf) w2 = (Failed (file_error k resp), ?w3)"
    using assms(4-7) by (simp add: download_file_run)
  have "download_files E c ?d (pre @ (k, gf) # post) w1 = (Failed (file_error k resp), ?w3)"
    by (simp add: download_files_append [OF assms(3)] one)
  then have run: "DownloadGist E ord c gistID directory w = (Failed (file_error k resp), ?w3)"
    unfolding DownloadGist_def by (simp add: on_ok_def assms(1) assms(2))
  have msg: "Error (file_error k resp)
               = ''Failed to download file '' @ k @ '': '' @ Status resp"
    by (simp add: file_error_def)
  from run msg download_files_kind_le [OF assms(3)] show ?thesis by simp
qed

theorem raw_fetch_failure_stops_the_gist_witness:
  "fst (DownloadGist demo_env (range_by [''a.txt'', ''b.txt'']) demo_client ''g4'' backup_dir
          empty_world) = Failed (file_error ''b.txt'' not_found)
   \<and> StatusCode not_found \<noteq> 200
   \<and> Error (file_error ''b.txt'' not_found) = ''Failed to download file b.txt: 404 Not Found''
   \<and> fs (snd (DownloadGist demo_env (range_by [''a.txt'', ''b.txt'']) demo_client ''g4''
          backup_dir empty_world)) (False, [''backup'', ''g4'', ''a.txt''])
        = Some (File ''hello'')
   \<and> fs (snd (DownloadGist demo_env (range_by [''a.txt'', ''b.txt'']) demo_client ''g4''
          backup_dir empty_world)) (False, [''backup'', ''g4'', ''b.txt'']) = None"
proof -
  let ?ord = "range_by [''a.txt'', ''b.txt'']"
  let ?a = "gist_file ''a.txt'' ''https://raw.test/a''"
  let ?b = "gist_file ''b.txt'' ''https://raw.test/b''"
  let ?gist = "Gist_of_json (json_of ''g4'' (demo_files ''g4''))"
  let ?w1 = "snd (DownloadGist_setup demo_env demo_client ''g4'' backup_dir empty_world)"
  let ?w2 = "snd (download_files demo_env demo_client (filepath_Join backup_dir ''g4'')
                   [(''a.txt'', ?a)] ?w1)"
  have h1: "DownloadGist_setup demo_env demo_client ''g4'' backup_dir empty_world
              = (Ok ?gist, ?w1)"
    by (simp add: demo_eval)
  have h2: "?ord (Files ?gist) = [(''a.txt'', ?a)] @ (''b.txt'', ?b) # []"
    by (simp add: demo_eval)
  have h3: "download_files demo_env demo_client (filepath_Join backup_dir ''g4'')
              [(''a.txt'', ?a)] ?w1 = (Ok (), ?w2)"
    by (simp add: demo_eval)
  have h5: "url_error demo_env (RawURL ?b) = None" by (simp add: demo_eval)
  have h6: "Do demo_env (http_Client (30 * time_Second)) (raw_request demo_client (RawURL ?b))
              = Inr not_found"
    by (simp add: demo_eval)
  have h7: "StatusCode not_found \<noteq> 200" by (simp add: not_found_def)
  note concl = raw_fetch_failure_stops_the_gist
    [where ord = ?ord and pre = "[(''a.txt'', ?a)]" and post = "[]",
     OF h1 h2 h3 demo_client_simps(2) h5 h6 h7]
  have a: "fs ?w2 (False, [''backup'', ''g4'', ''a.txt'']) = Some (File ''hello'')"
    by (simp add: demo_eval)
  have b: "fs ?w2 (False, [''backup'', ''g4'', ''b.txt'']) = None"
    by (simp add: demo_eval)
  have msg: "Error (file_error ''b.txt'' not_found)
               = ''Failed to download file b.txt: 404 Not Found''"
    by (simp add: file_error_def not_found_def)
  from concl a b msg h7 show ?thesis by simp
qed

subsection \<open>The trace\<close>

lemma requests_append: "requests (xs @ ys) = requests xs @ requests ys"
  by (induction xs rule: requests.induct) simp_all

lemma written_append: "written (xs @ ys) = written xs @ written ys"
  by (induction xs rule: written.induct) simp_all

lemma built_by_headers:
  assumes "built_by c (s, req)"
  shows "Header_Get req ''Authorization''
           = (if token c = [] then None else Some (''token '' @ token c))
         \<and> Header_Get req ''Accept''
           = (if s = RawCall then None else Some ''application/vnd.github+json'')"
proof -
  from assms have "Header req =
      Header (case s of RawCall \<Rightarrow> raw_request c (ReqURL req)
              | ListCall \<Rightarrow> api_request c (ReqURL req)
              | DetailCall \<Rightarrow> api_request c (ReqURL req))"
    unfolding built_by_def by (metis fst_conv snd_conv)
  then show ?thesis
    by (cases s; cases "token c = []")
       (simp_all add: Header_Get_def api_request_def raw_request_def)
qed

lemma download_file_events:
  assumes "download_file E c d entry w = (r, w')"
  shows "\<exists>evs rest. trace w' = trace w @ evs
           \<and> file_events c d entry (raw_body E c (snd entry)) = evs @ rest
           \<and> (r = Ok () \<longrightarrow> rest = [])"
proof -
  obtain k gf where entry: "entry = (k, gf)" by (cases entry)
  let ?q = "HttpDo RawCall (raw_request c (RawURL gf))"
  let ?p = "filepath_Join d k"
  let ?fe = "file_events c d entry (raw_body E c (snd entry))"
  have fe: "?fe = [?q, Create ?p, Copy ?p (raw_body E c gf)]"
    by (simp add: file_events_def entry)
  from assms consider
      (none) "trace w' = trace w" "r \<noteq> Ok ()"
    | (sent) "trace w' = trace w @ [?q]" "r \<noteq> Ok ()"
    | (created) "trace w' = trace w @ [?q, Create ?p]" "r \<noteq> Ok ()"
    | (copied) "trace w' = trace w @ [?q, Create ?p, Copy ?p (raw_body E c gf)]"
    unfolding entry download_file_run
    by (auto simp: raw_body_def file_events_def split: option.splits sum.splits if_splits)
  then show ?thesis
  proof cases
    case none
    then show ?thesis by (intro exI [of _ "[]"] exI [of _ ?fe]) simp
  next
    case sent
    then show ?thesis
      by (intro exI [of _ "[?q]"] exI [of _ "[Create ?p, Copy ?p (raw_body E c gf)]"])
         (simp add: fe)
  next
    case created
    then show ?thesis
      by (intro exI [of _ "[?q, Create ?p]"] exI [of _ "[Copy ?p (raw_body E c gf)]"])
         (simp add: fe)
  next
    case copied
    then show ?thesis by (intro exI [of _ ?fe] exI [of _ "[]"]) (simp add: fe)
  qed
qed

lemma download_files_events:
  "download_files E c d es w = (r, w') \<Longrightarrow>
     \<exists>n evs rest. n \<le> length es
       \<and> trace w' = trace w
            @ concat (map (\<lambda>entry. file_events c d entry (raw_body E c (snd entry))) (take n es))
            @ evs
       \<and> (n < length es \<longrightarrow>
            file_events c d (es ! n) (raw_body E c (snd (es ! n))) = evs @ rest)
       \<and> (n = length es \<longrightarrow> evs = [])
       \<and> (r = Ok () \<longrightarrow> n = length es)"
proof (induction es arbitrary: w)
  case Nil
  then show ?case by simp
next
  case (Cons entry es)
  let ?fe = "\<lambda>entry. file_events c d entry (raw_body E c (snd entry))"
  obtain r1 w1 where one: "download_file E c d entry w = (r1, w1)"
    by (cases "download_file E c d entry w")
  from download_file_events [OF one] obtain evs1 rest1 where
    t1: "trace w1 = trace w @ evs1" and fe1: "?fe entry = evs1 @ rest1"
    and ok1: "r1 = Ok () \<longrightarrow> rest1 = []" by blast
  show ?case
  proof (cases "r1 = Ok ()")
    case True
    with Cons.prems one have rest: "download_files E c d es w1 = (r, w')" by simp
    from Cons.IH [OF rest] obtain n evs rest where
      n: "n \<le> length es"
      and t: "trace w' = trace w1 @ concat (map ?fe (take n es)) @ evs"
      and part: "n < length es \<longrightarrow> ?fe (es ! n) = evs @ rest"
      and full: "n = length es \<longrightarrow> evs = []"
      and ok: "r = Ok () \<longrightarrow> n = length es" by blast
    from True ok1 fe1 have "evs1 = ?fe entry" by simp
    with t t1 have "trace w' = trace w @ concat (map ?fe (take (Suc n) (entry # es))) @ evs"
      by simp
    with n part full ok show ?thesis
      by (intro exI [of _ "Suc n"] exI [of _ evs] exI [of _ rest]) simp
  next
    case False
    with Cons.prems one have "r = r1" "w' = w1"
      by (cases r1; simp)+
    with t1 fe1 False show ?thesis
      by (intro exI [of _ 0] exI [of _ evs1] exI [of _ rest1]) simp
  qed
qed

subsection \<open>Every request is one the code builds\<close>

lemma sends_built_refl: "sends_built c w w"
  by (simp add: sends_built_def)

lemma sends_built_trans: "sends_built c w w1 \<Longrightarrow> sends_built c w1 w2 \<Longrightarrow> sends_built c w w2"
  unfolding sends_built_def
proof (elim exE conjE)
  fix evs1 evs2
  assume "trace w1 = trace w @ evs1" "list_all (built_by c) (requests evs1)"
    "trace w2 = trace w1 @ evs2" "list_all (built_by c) (requests evs2)"
  then have "trace w2 = trace w @ (evs1 @ evs2) \<and> list_all (built_by c) (requests (evs1 @ evs2))"
    by (simp add: requests_append)
  then show "\<exists>evs. trace w2 = trace w @ evs \<and> list_all (built_by c) (requests evs)" ..
qed

lemma built_by_raw: "built_by c (RawCall, raw_request c u)"
  by (simp add: built_by_def raw_request_def)

lemma built_by_api: "built_by c (ListCall, api_request c u)" "built_by c (DetailCall, api_request c u)"
  by (simp_all add: built_by_def api_request_def)

lemma GetGistsForUser_built: "GetGistsForUser E c username w = (r, w') \<Longrightarrow> sends_built c w w'"
  unfolding sends_built_def GetGistsForUser_run
  by (auto simp: built_by_api split: option.splits)

lemma download_file_built: "download_file E c d entry w = (r, w') \<Longrightarrow> sends_built c w w'"
proof -
  assume "download_file E c d entry w = (r, w')"
  from download_file_events [OF this] obtain evs rest where
    t: "trace w' = trace w @ evs"
    and fe: "file_events c d entry (raw_body E c (snd entry)) = evs @ rest" by blast
  have "set (requests evs) \<subseteq> set (requests (evs @ rest))" by (simp add: requests_append)
  also have "\<dots> = {(RawCall, raw_request c (RawURL (snd entry)))}"
    unfolding fe [symmetric] by (simp add: file_events_def)
  finally have "list_all (built_by c) (requests evs)"
    by (auto simp: list_all_iff built_by_raw)
  with t show ?thesis unfolding sends_built_def by blast
qed

lemma download_files_built: "download_files E c d es w = (r, w') \<Longrightarrow> sends_built c w w'"
proof (induction es arbitrary: w)
  case Nil
  then show ?case by (simp add: sends_built_refl)
next
  case (Cons entry es)
  obtain r1 w1 where one: "download_file E c d entry w = (r1, w1)"
    by (cases "download_file E c d entry w")
  note b1 = download_file_built [OF one]
  show ?case
  proof (cases r1)
    case (Ok u)
    with Cons.prems one have "download_files E c d es w1 = (r, w')" by simp
    from sends_built_trans [OF b1 Cons.IH [OF this]] show ?thesis .
  next
    case (Failed e)
    with Cons.prems one b1 show ?thesis by simp
  next
    case Panicked
    with Cons.prems one b1 show ?thesis by simp
  qed
qed

lemma DownloadGist_setup_built:
  "DownloadGist_setup E c gistID directory w = (r, w') \<Longrightarrow> sends_built c w w'"
  unfolding sends_built_def DownloadGist_setup_run Let_def
  by (auto simp: built_by_api split: option.splits sum.splits prod.splits if_splits)

lemma DownloadGist_built:
  "DownloadGist E ord c gistID directory w = (r, w') \<Longrightarrow> sends_built c w w'"
  unfolding DownloadGist_def on_ok_result
  by (auto intro: DownloadGist_setup_built download_files_built sends_built_trans)

lemma download_gists_built:
  "download_gists E ord c userDir gs w = (r, w') \<Longrightarrow> sends_built c w w'"
proof (induction gs arbitrary: w)
  case Nil
  then show ?case by (simp add: sends_built_refl)
next
  case (Cons g gs)
  obtain r1 w1 where one: "DownloadGist E ord c (ID g) userDir w = (r1, w1)"
    by (cases "DownloadGist E ord c (ID g) userDir w")
  note b1 = DownloadGist_built [OF one]
  show ?case
  proof (cases r1)
    case (Ok u)
    with Cons.prems one have "download_gists E ord c userDir gs w1 = (r, w')" by simp
    from sends_built_trans [OF b1 Cons.IH [OF this]] show ?thesis .
  next
    case (Failed e)
    with Cons.prems one b1 show ?thesis by auto
  next
    case Panicked
    with Cons.prems one b1 show ?thesis by auto
  qed
qed

lemma fs_call_built: "fs_call (MkdirAll p) op w = (r, w') \<Longrightarrow> sends_built c w w'"
  unfolding sends_built_def fs_call_def by (auto split: prod.splits option.splits)

lemma DownloadAllGistsForUser_built:
  "DownloadAllGistsForUser E ord c username directory w = (r, w') \<Longrightarrow> sends_built c w w'"
  unfolding DownloadAllGistsForUser_def Let_def on_ok_result
  by (elim disjE exE conjE)
     (blast intro: GetGistsForUser_built fs_call_built download_gists_built sends_built_trans)+

subsection \<open>Claims about the requests and their order\<close>

lemma sends_built_headers:
  "sends_built c w w' \<Longrightarrow>
     \<exists>evs. trace w' = trace w @ evs \<and> list_all (headers_as_configured c) (requests evs)"
  unfolding sends_built_def headers_as_configured_def list_all_iff
  using built_by_headers by fastforce

text \<open>
  C6, as the code has it. Every request that \<open>GetGistsForUser\<close>, \<open>DownloadGist\<close> and
  \<open>DownloadAllGistsForUser\<close> send carries \<open>Authorization: token <token>\<close> when the
  token is not empty and no \<open>Authorization\<close> header when it is empty. The list and the
  detail request carry \<open>Accept: application/vnd.github+json\<close>; the request for a raw
  URL carries no \<open>Accept\<close> header.
\<close>

theorem requests_have_the_configured_headers:
  "(\<exists>evs. trace (snd (GetGistsForUser E c username w)) = trace w @ evs
          \<and> list_all (headers_as_configured c) (requests evs))
   \<and> (\<exists>evs. trace (snd (DownloadGist E ord c gistID directory w)) = trace w @ evs
          \<and> list_all (headers_as_configured c) (requests evs))
   \<and> (\<exists>evs. trace (snd (DownloadAllGistsForUser E ord c username directory w)) = trace w @ evs
          \<and> list_all (headers_as_configured c) (requests evs))"
proof (intro conjI)
  show "\<exists>evs. trace (snd (GetGistsForUser E c username w)) = trace w @ evs
          \<and> list_all (headers_as_configured c) (requests evs)"
    by (rule sends_built_headers, rule GetGistsForUser_built) (rule prod.collapse [symmetric])
  show "\<exists>evs. trace (snd (DownloadGist E ord c gistID directory w)) = trace w @ evs
          \<and> list_all (headers_as_configured c) (requests evs)"
    by (rule sends_built_headers, rule DownloadGist_built) (rule prod.collapse [symmetric])
  show "\<exists>evs. trace (snd (DownloadAllGistsForUser E ord c username directory w)) = trace w @ evs
          \<and> list_all (headers_as_configured c) (requests evs)"
    by (rule sends_built_headers, rule DownloadAllGistsForUser_built)
       (rule prod.collapse [symmetric])
qed

text \<open>
  The claim as stated fails on the request for a raw URL: downloading \<open>g1\<close> sends the
  detail request and one raw request, and the raw request has no \<open>Accept\<close> header.
\<close>

theorem raw_request_without_Accept:
  "requests (trace (snd (DownloadGist demo_env (range_by [''a.txt'']) demo_client ''g1''
      backup_dir empty_world)))
     = [(DetailCall, api_request demo_client (gist_url ''g1'')),
        (RawCall, raw_request demo_client ''https://raw.test/a'')]
   \<and> Header_Get (raw_request demo_client ''https://raw.test/a'') ''Accept'' = None
   \<and> Header_Get (api_request demo_client (gist_url ''g1'')) ''Accept''
       = Some ''application/vnd.github+json''"
  by (simp add: demo_eval Header_Get_def)

theorem requests_have_the_configured_headers_witness:
  "requests (trace (snd (DownloadAllGistsForUser demo_env (range_by [''a.txt'']) demo_client
      ''alice'' backup_dir empty_world)))
     = [(ListCall, api_request demo_client (users_gists_url ''alice'')),
        (DetailCall, api_request demo_client (gist_url ''g1'')),
        (RawCall, raw_request demo_client ''https://raw.test/a''),
        (DetailCall, api_request demo_client (gist_url ''g2''))]
   \<and> list_all (headers_as_configured demo_client)
        (requests (trace (snd (DownloadAllGistsForUser demo_env (range_by [''a.txt''])
           demo_client ''alice'' backup_dir empty_world))))
   \<and> Header_Get (raw_request demo_client ''https://raw.test/a'') ''Authorization''
       = Some ''token s3cr3t''"
proof -
  let ?run = "DownloadAllGistsForUser demo_env (range_by [''a.txt'']) demo_client ''alice''
                backup_dir empty_world"
  from requests_have_the_configured_headers
         [of demo_env demo_client "''alice''" empty_world "range_by [''a.txt'']" "''g1''"
             backup_dir]
  obtain evs where "trace (snd ?run) = trace empty_world @ evs"
    and "list_all (headers_as_configured demo_client) (requests evs)" by blast
  then have a: "list_all (headers_as_configured demo_client) (requests (trace (snd ?run)))"
    by (simp add: empty_world_def)
  have b: "requests (trace (snd ?run))
     = [(ListCall, api_request demo_client (users_gists_url ''alice'')),
        (DetailCall, api_request demo_client (gist_url ''g1'')),
        (RawCall, raw_request demo_client ''https://raw.test/a''),
        (DetailCall, api_request demo_client (gist_url ''g2''))]"
    by (simp add: demo_eval)
  have c: "Header_Get (raw_request demo_client ''https://raw.test/a'') ''Authorization''
       = Some ''token s3cr3t''"
    by (simp add: demo_eval Header_Get_def)
  from a b c show ?thesis by simp
qed

text \<open>
  C5, as the code has it. \<open>DownloadGist\<close> handles the files one at a time: after the
  events of the setup, the trace is the request, the create and the copy of the first
  entry, then those of the second, and so on, in the order in which the \<open>range\<close> loop
  visits the map (\<open>ord\<close>); a run that fails stops inside the events of one entry. This
  order is the runtime's: it need not be the order of the files in the API response.
\<close>

theorem files_are_handled_one_at_a_time:
  assumes "DownloadGist_setup E c gistID directory w = (Ok gist, w1)"
    and "DownloadGist E ord c gistID directory w = (r, w')"
  shows "\<exists>n evs rest. n \<le> length (ord (Files gist))
       \<and> trace w' = trace w1
            @ concat (map (\<lambda>entry. file_events c (filepath_Join directory gistID) entry
                                    (raw_body E c (snd entry)))
                          (take n (ord (Files gist))))
            @ evs
       \<and> (n < length (ord (Files gist)) \<longrightarrow>
            file_events c (filepath_Join directory gistID) (ord (Files gist) ! n)
              (raw_body E c (snd (ord (Files gist) ! n))) = evs @ rest)
       \<and> (n = length (ord (Files gist)) \<longrightarrow> evs = [])
       \<and> (r = Ok () \<longrightarrow> n = length (ord (Files gist)))"
proof -
  from assms have "download_files E c (filepath_Join directory gistID) (ord (Files gist)) w1
                     = (r, w')"
    unfolding DownloadGist_def by (simp add: on_ok_def)
  from download_files_events [OF this] show ?thesis .
qed

lemma demo_g5_order:
  "range_by [''c.txt'', ''a.txt''] (Files (Gist_of_json (json_of ''g5'' (demo_files ''g5''))))
     = [(''c.txt'', gist_file ''c.txt'' ''https://raw.test/c''),
        (''a.txt'', gist_file ''a.txt'' ''https://raw.test/a'')]"
  by (simp add: demo_eval)

lemma demo_g5_enumerates:
  "enumerates
     (range_by [''c.txt'', ''a.txt''] (Files (Gist_of_json (json_of ''g5'' (demo_files ''g5'')))))
     (Files (Gist_of_json (json_of ''g5'' (demo_files ''g5''))))"
  unfolding demo_g5_order enumerates_def
  by (auto simp: Gist_of_json_def json_of_def demo_files_def store_members_def)

text \<open>
  The claim as stated fails: the API response of \<open>g5\<close> lists \<open>a.txt\<close> before \<open>c.txt\<close>;
  a \<open>range\<close> loop may visit \<open>c.txt\<close> first (each entry once), and then \<open>c.txt\<close> is
  fetched and written before \<open>a.txt\<close>.
\<close>

theorem files_not_in_response_order:
  "decode_gist demo_env (ok_response ''g5'') = Inr (json_of ''g5'' (demo_files ''g5''))
   \<and> map fst (json_files (json_of ''g5'' (demo_files ''g5''))) = [''a.txt'', ''c.txt'']
   \<and> enumerates
       (range_by [''c.txt'', ''a.txt''] (Files (Gist_of_json (json_of ''g5'' (demo_files ''g5'')))))
       (Files (Gist_of_json (json_of ''g5'' (demo_files ''g5''))))
   \<and> fst (DownloadGist demo_env (range_by [''c.txt'', ''a.txt'']) demo_client ''g5''
            backup_dir empty_world) = Ok ()
   \<and> map (\<lambda>sr. ReqURL (snd sr))
        (requests (trace (snd (DownloadGist demo_env (range_by [''c.txt'', ''a.txt''])
           demo_client ''g5'' backup_dir empty_world))))
       = [''https://api.github.com/gists/g5'', ''https://raw.test/c'', ''https://raw.test/a'']
   \<and> written (trace (snd (DownloadGist demo_env (range_by [''c.txt'', ''a.txt''])
           demo_client ''g5'' backup_dir empty_world)))
       = [(False, [''backup'', ''g5'', ''metadata.json'']),
          (False, [''backup'', ''g5'', ''c.txt'']),
          (False, [''backup'', ''g5'', ''a.txt''])]"
proof -
  have a: "decode_gist demo_env (ok_response ''g5'') = Inr (json_of ''g5'' (demo_files ''g5''))"
    by (simp add: demo_env_simps ok_response_def)
  have b: "map fst (json_files (json_of ''g5'' (demo_files ''g5''))) = [''a.txt'', ''c.txt'']"
    by (simp add: json_of_def demo_files_def)
  have c: "fst (DownloadGist demo_env (range_by [''c.txt'', ''a.txt'']) demo_client ''g5''
            backup_dir empty_world) = Ok ()"
    by (simp add: demo_eval)
  have d: "trace (snd (DownloadGist demo_env (range_by [''c.txt'', ''a.txt'']) demo_client ''g5''
            backup_dir empty_world))
      = [MkdirAll (False, [''backup'']),
         HttpDo DetailCall (api_request demo_client ''https://api.github.com/gists/g5''),
         MkdirAll (False, [''backup'', ''g5'']),
         WriteFile (False, [''backup'', ''g5'', ''metadata.json'']) ''{id: g5}'',
         HttpDo RawCall (raw_request demo_client ''https://raw.test/c''),
         Create (False, [''backup'', ''g5'', ''c.txt'']),
         Copy (False, [''backup'', ''g5'', ''c.txt'']) ''world'',
         HttpDo RawCall (raw_request demo_client ''https://raw.test/a''),
         Create (False, [''backup'', ''g5'', ''a.txt'']),
         Copy (False, [''backup'', ''g5'', ''a.txt'']) ''hello'']"
    by (simp add: demo_eval)
  have e: "ReqURL (api_request demo_client u) = u" "ReqURL (raw_request demo_client u) = u" for u
    by (simp_all add: api_request_def raw_request_def)
  from a b c demo_g5_enumerates show ?thesis
    unfolding d by (simp add: e)
qed

theorem files_are_handled_one_at_a_time_witness:
  "trace (snd (DownloadGist demo_env (range_by [''c.txt'', ''a.txt'']) demo_client ''g5''
       backup_dir empty_world))
     = trace (snd (DownloadGist_setup demo_env demo_client ''g5'' backup_dir empty_world))
       @ file_events demo_client (False, [''backup'', ''g5''])
           (''c.txt'', gist_file ''c.txt'' ''https://raw.test/c'') ''world''
       @ file_events demo_client (False, [''backup'', ''g5''])
           (''a.txt'', gist_file ''a.txt'' ''https://raw.test/a'') ''hello''"
proof -
  let ?ord = "range_by [''c.txt'', ''a.txt'']"
  let ?gist = "Gist_of_json (json_of ''g5'' (demo_files ''g5''))"
  let ?w1 = "snd (DownloadGist_setup demo_env demo_client ''g5'' backup_dir empty_world)"
  let ?w' = "snd (DownloadGist demo_env ?ord demo_client ''g5'' backup_dir empty_world)"
  let ?fe = "\<lambda>entry. file_events demo_client (filepath_Join backup_dir ''g5'') entry
                        (raw_body demo_env demo_client (snd entry))"
  have h1: "DownloadGist_setup demo_env demo_client ''g5'' backup_dir empty_world
              = (Ok ?gist, ?w1)"
    by (simp add: demo_eval)
  have h2: "DownloadGist demo_env ?ord demo_client ''g5'' backup_dir empty_world = (Ok (), ?w')"
    by (simp add: demo_eval)
  from files_are_handled_one_at_a_time [where ord = ?ord, OF h1 h2]
  obtain n evs where n: "n = length (?ord (Files ?gist))" and "evs = []"
    and "trace ?w' = trace ?w1 @ concat (map ?fe (take n (?ord (Files ?gist)))) @ evs"
    by auto
  then have "trace ?w' = trace ?w1 @ concat (map ?fe (?ord (Files ?gist)))" by simp
  also have "concat (map ?fe (?ord (Files ?gist)))
      = file_events demo_client (False, [''backup'', ''g5''])
           (''c.txt'', gist_file ''c.txt'' ''https://raw.test/c'') ''world''
       @ file_events demo_client (False, [''backup'', ''g5''])
           (''a.txt'', gist_file ''a.txt'' ''https://raw.test/a'') ''hello''"
    unfolding demo_g5_order
    by (simp add: raw_body_def demo_env_simps demo_client_simps demo_Do_def raw_request_def
          gist_file_def ok_response_def filepath_Join_def backup_dir_def clean_step_def)
  finally show ?thesis .
qed

subsection \<open>Where the errors come from\<close>



















subsection \<open>Cleaned paths\<close>

lemma cleaned_rev_clean_step:
  "cleaned_rev r (rev out) \<Longrightarrow> cleaned_rev r (rev (clean_step r out s))"
proof (cases out rule: rev_cases)
  case Nil
  then show ?thesis by (simp add: clean_step_def)
next
  case (snoc ys y)
  assume "cleaned_rev r (rev out)"
  with snoc show ?thesis
    by (auto simp: clean_step_def split: if_splits)
qed

lemma cleaned_rev_foldl:
  "cleaned_rev r (rev acc) \<Longrightarrow> cleaned_rev r (rev (foldl (clean_step r) acc xs))"
  by (induction xs arbitrary: acc) (simp_all add: cleaned_rev_clean_step)

lemma cleaned_Join: "cleaned (filepath_Join d n)"
  by (simp add: cleaned_def filepath_Join_def cleaned_rev_foldl)

lemma clean_fixed: "cleaned_rev r (rev out) \<Longrightarrow> foldl (clean_step r) [] out = out"
proof (induction out rule: rev_induct)
  case Nil
  show ?case by simp
next
  case (snoc s out)
  then have "foldl (clean_step r) [] out = out" by simp
  moreover from snoc.prems have "clean_step r out s = out @ [s]"
    by (cases out rule: rev_cases) (auto simp: clean_step_def split: if_splits)
  ultimately show ?case by simp
qed

lemma filepath_Join_cleaned:
  "cleaned d \<Longrightarrow> plain_name n \<Longrightarrow> filepath_Join d n = (fst d, snd d @ [n])"
  by (simp add: filepath_Join_plain cleaned_def clean_fixed)

lemma filepath_Join_inside:
  "plain_name n \<Longrightarrow>
     filepath_Join (filepath_Join d g) n
       = (fst (filepath_Join d g), snd (filepath_Join d g) @ [n])"
  by (rule filepath_Join_cleaned [OF cleaned_Join])

lemma plain_names_inj: "\<forall>k\<in>K. plain_name k \<Longrightarrow> inj_on (filepath_Join d) K"
  by (rule inj_onI) (blast intro: filepath_Join_plain_inj)

subsection \<open>Writing a file changes no directory\<close>

lemma is_dir_write: "\<not> is_dir f q \<Longrightarrow> is_dir (f(q \<mapsto> File b)) x = is_dir f x"
  by (auto simp: is_dir_def)

lemma open_error_write:
  "open_error f q = None \<Longrightarrow> open_error (f(q \<mapsto> File b)) p = open_error f p"
proof -
  assume "open_error f q = None"
  then have "\<not> is_dir f q" by (auto simp: open_error_def split: if_splits)
  then show ?thesis by (simp add: open_error_def is_dir_write)
qed

subsection \<open>When a download succeeds\<close>

lemma download_file_Ok_iff:
  "download_file E c d (k, gf) w = (Ok u, w') \<longleftrightarrow>
     fetchable E c gf \<and> open_error (fs w) (filepath_Join d k) = None \<and>
     w' = w\<lparr>fs := (fs w)(filepath_Join d k \<mapsto> File (raw_body E c gf)),
            trace := trace w @ file_events c d (k, gf) (raw_body E c gf)\<rparr>"
proof (cases "url_error E (RawURL gf)")
  case (Some e)
  then show ?thesis by (simp add: download_file_run fetchable_def)
next
  case no_url_error: None
  show ?thesis
  proof (cases "httpClient c")
    case None
    with no_url_error show ?thesis by (simp add: download_file_run fetchable_def)
  next
    case (Some h)
    show ?thesis
    proof (cases "Do E h (raw_request c (RawURL gf))")
      case (Inl e)
      with no_url_error Some show ?thesis by (simp add: download_file_run fetchable_def)
    next
      case (Inr resp)
      with no_url_error Some show ?thesis
        by (cases "open_error (fs w) (filepath_Join d k)"; cases "BodyErr resp")
           (auto simp: download_file_run fetchable_def raw_body_def)
    qed
  qed
qed

lemma write_all_Cons:
  "write_all E c d (entry # es) f
     = write_all E c d es (f(filepath_Join d (fst entry) \<mapsto> File (raw_body E c (snd entry))))"
  by (simp add: write_all_def)

lemma write_all_Nil: "write_all E c d [] f = f"
  by (simp add: write_all_def)

lemma download_files_Ok_iff:
  "download_files E c d es w = (Ok u, w') \<longleftrightarrow>
     (\<forall>entry\<in>set es. fetchable E c (snd entry)
                      \<and> open_error (fs w) (filepath_Join d (fst entry)) = None) \<and>
     w' = w\<lparr>fs := write_all E c d es (fs w),
            trace := trace w
              @ concat (map (\<lambda>entry. file_events c d entry (raw_body E c (snd entry))) es)\<rparr>"
proof (induction es arbitrary: w)
  case Nil
  show ?case by (auto simp: write_all_Nil)
next
  case (Cons entry es)
  obtain k gf where entry: "entry = (k, gf)" by (cases entry)
  let ?p = "filepath_Join d k"
  let ?w1 = "w\<lparr>fs := (fs w)(?p \<mapsto> File (raw_body E c gf)),
               trace := trace w @ file_events c d (k, gf) (raw_body E c gf)\<rparr>"
  show ?case
  proof (cases "fetchable E c gf \<and> open_error (fs w) ?p = None")
    case True
    then have one: "download_file E c d (k, gf) w = (Ok (), ?w1)"
      by (simp add: download_file_Ok_iff)
    have oe: "open_error ((fs w)(?p \<mapsto> File (raw_body E c gf))) q = open_error (fs w) q" for q
      using True by (simp add: open_error_write)
    have step: "download_files E c d (entry # es) w = download_files E c d es ?w1"
      by (simp add: entry one)
    have "download_files E c d (entry # es) w = (Ok u, w')
            \<longleftrightarrow> download_files E c d es ?w1 = (Ok u, w')"
      by (simp only: step)
    also have "\<dots> \<longleftrightarrow>
        (\<forall>entry\<in>set es. fetchable E c (snd entry)
                      \<and> open_error (fs ?w1) (filepath_Join d (fst entry)) = None) \<and>
        w' = ?w1\<lparr>fs := write_all E c d es (fs ?w1),
            trace := trace ?w1
              @ concat (map (\<lambda>entry. file_events c d entry (raw_body E c (snd entry))) es)\<rparr>"
      by (rule Cons.IH)
    also have "\<dots> \<longleftrightarrow>
        (\<forall>entry\<in>set (entry # es). fetchable E c (snd entry)
                      \<and> open_error (fs w) (filepath_Join d (fst entry)) = None) \<and>
        w' = w\<lparr>fs := write_all E c d (entry # es) (fs w),
            trace := trace w
              @ concat (map (\<lambda>entry. file_events c d entry (raw_body E c (snd entry)))
                            (entry # es))\<rparr>"
      using True by (simp add: oe write_all_Cons entry)
    finally show ?thesis .
  next
    case False
    then have "\<nexists>w1. download_file E c d (k, gf) w = (Ok (), w1)"
      by (auto simp: download_file_Ok_iff)
    then have "download_files E c d (entry # es) w \<noteq> (Ok u, w')"
      unfolding entry by (auto split: prod.splits result.splits)
    with False show ?thesis unfolding entry by auto
  qed
qed

end
